theory Spec2Isabelle
  imports Complex_Main "HOL-Library.AList"
begin

section \<open>Values, exceptions and the Python library\<close>

text \<open>
  The workflow engine of \<^verbatim>\<open>workflow_runner.py\<close> works on JSON-like Python values.
  The type parameter \<open>'f\<close> stands for Python's \<^verbatim>\<open>float\<close>; its arithmetic is
  not part of the repository and is supplied through the record \<open>pylib\<close> below.
  Objects decoded from JSON have string keys.
\<close>

datatype 'f pyval =
    PNone
  | PBool bool
  | PInt int
  | PFloat 'f
  | PStr string
  | PList "'f pyval list"
  | PDict "(string \<times> 'f pyval) list"

datatype py_exn =
    KeyError
  | TypeError
  | AttributeError
  | ValueError
  | IndexError
  | OverflowError
  | ZeroDivisionError
  | JSONDecodeError
  | OtherError string

text \<open>
  The Variable Context is a Python \<^verbatim>\<open>dict\<close>: an association list in insertion order
  (the order matters for interpolation). A key is any hashable value; the code only
  ever looks up string keys.
\<close>

type_synonym 'f pyctx = "('f pyval \<times> 'f pyval) list"

text \<open>
  What the code takes from the Python language and its standard library:
  \<^verbatim>\<open>str\<close>/\<^verbatim>\<open>repr\<close> of a non-string value, \<^verbatim>\<open>json.dumps\<close>,
  \<^verbatim>\<open>json.loads\<close>, \<^verbatim>\<open>float\<close> arithmetic, \<^verbatim>\<open>eval\<close> followed by
  \<^verbatim>\<open>bool\<close> (with the Context as locals, which an assignment expression may
  update), the text of an exception, and the iteration order of a \<^verbatim>\<open>set\<close> of
  strings. Every function of the model takes them as the parameter \<open>L\<close>.
\<close>

record 'f pylib =
  repr_val :: "'f pyval \<Rightarrow> string"
  json_dumps :: "'f pyval \<Rightarrow> string"
  json_loads :: "string \<Rightarrow> 'f pyval option"
  float_of_str :: "string \<Rightarrow> 'f option"
  float_of_int :: "int \<Rightarrow> 'f option"
  f_add :: "'f \<Rightarrow> 'f \<Rightarrow> 'f"
  f_sub :: "'f \<Rightarrow> 'f \<Rightarrow> 'f"
  f_mul :: "'f \<Rightarrow> 'f \<Rightarrow> 'f"
  f_div :: "'f \<Rightarrow> 'f \<Rightarrow> 'f"
  f_mod :: "'f \<Rightarrow> 'f \<Rightarrow> 'f option"
  f_is_zero :: "'f \<Rightarrow> bool"
  f_is_integer :: "'f \<Rightarrow> bool"
  f_to_int :: "'f \<Rightarrow> py_exn + int"
  f_eq_int :: "'f \<Rightarrow> int \<Rightarrow> bool"
  f_less :: "'f \<Rightarrow> 'f \<Rightarrow> bool"
  f_less_int :: "'f \<Rightarrow> int \<Rightarrow> bool"
  eval_cond :: "string \<Rightarrow> 'f pyctx \<Rightarrow> (py_exn + bool) \<times> 'f pyctx"
  exn_msg :: "py_exn \<Rightarrow> string"
  set_list :: "string list \<Rightarrow> string list"
  op_in :: "'f pyval \<Rightarrow> 'f pyval \<Rightarrow> py_exn + bool"
  op_getitem :: "'f pyval \<Rightarrow> 'f pyval \<Rightarrow> py_exn + 'f pyval"

section \<open>String operations\<close>

definition startswith :: "string \<Rightarrow> string \<Rightarrow> bool" where
  "startswith s p = (take (length p) s = p)"

definition endswith :: "string \<Rightarrow> string \<Rightarrow> bool" where
  "endswith s p = (length p \<le> length s \<and> drop (length s - length p) s = p)"

fun contains :: "string \<Rightarrow> string \<Rightarrow> bool" where
  "contains p [] = (p = [])"
| "contains p (c # cs) = (startswith (c # cs) p \<or> contains p cs)"

text \<open>\<^verbatim>\<open>s.replace(old, new)\<close>: every non-overlapping occurrence, from the left.\<close>

function replace :: "string \<Rightarrow> string \<Rightarrow> string \<Rightarrow> string" where
  "replace old new [] = (if old = [] then new else [])"
| "replace old new (c # cs) =
     (if old = [] then new @ c # replace old new cs
      else if startswith (c # cs) old then new @ replace old new (drop (length old) (c # cs))
      else c # replace old new cs)"
  by pat_completeness auto
termination
  by (relation "measure (\<lambda>(old, new, s). length s)") auto

text \<open>\<^verbatim>\<open>s[1:-1]\<close>\<close>

definition strip_ends :: "string \<Rightarrow> string" where
  "strip_ends s = butlast (tl s)"

text \<open>\<^verbatim>\<open>str(v)\<close>: a string is itself, anything else is rendered by the language.\<close>

definition py_str :: "'f pylib \<Rightarrow> 'f pyval \<Rightarrow> string" where
  "py_str L v = (case v of PStr s \<Rightarrow> s | _ \<Rightarrow> repr_val L v)"

text \<open>The placeholder \<^verbatim>\<open>f"{{{k}}}"\<close> of a Context key.\<close>

definition placeholder :: "'f pylib \<Rightarrow> 'f pyval \<Rightarrow> string" where
  "placeholder L k = ''{'' @ py_str L k @ ''}''"

section \<open>The Value Resolver\<close>

text \<open>The test that a template is exactly one reference (lines 149, 180).\<close>

definition is_exact_ref :: "string \<Rightarrow> bool" where
  "is_exact_ref s =
     (startswith s ''{'' \<and> endswith s ''}'' \<and> count_list s (CHR ''{'') = 1)"

text \<open>
  The interpolation loop of lines 155-157: for every entry of the Context, in order,
  replace its placeholder by \<^verbatim>\<open>str\<close> of the value.
\<close>

fun interpolate :: "'f pylib \<Rightarrow> 'f pyctx \<Rightarrow> string \<Rightarrow> string" where
  "interpolate L [] s = s"
| "interpolate L ((k, v) # kvs) s =
     interpolate L kvs
       (if contains (placeholder L k) s then replace (placeholder L k) (py_str L v) s else s)"

definition resolve_val :: "'f pylib \<Rightarrow> 'f pyctx \<Rightarrow> 'f pyval \<Rightarrow> 'f pyval" where
  "resolve_val L ctx val =
     (case val of
        PStr s \<Rightarrow>
          if is_exact_ref s then
            (case map_of ctx (PStr (strip_ends s)) of Some v \<Rightarrow> v | None \<Rightarrow> PStr s)
          else if contains ''{'' s \<and> contains ''}'' s then PStr (interpolate L ctx s)
          else PStr s
      | _ \<Rightarrow> val)"

section \<open>Nodes, state and outcomes\<close>

text \<open>
  A node is \<^verbatim>\<open>{id, type, data}\<close>; \<open>ndata\<close> is \<open>None\<close> when the node has no
  \<^verbatim>\<open>data\<close> key. The mutable part of a \<^verbatim>\<open>WorkflowExecutor\<close> is its Context
  and its execution log.

  Values are passed by value. The only objects that the code updates in place are the
  dict stored under \<^verbatim>\<open>_loop_states\<close> and the per-node state dicts in it; the model
  writes such an update back to the Context entry, and to no other place that might hold
  the same object.
\<close>

record 'f node =
  nid :: string
  ntype :: string
  ndata :: "(string \<times> 'f pyval) list option"

record 'f estate =
  ctx :: "'f pyctx"
  execution_log :: "string list"

datatype 'f outcome = Logic bool | Loop string | Response "'f pyval"

type_synonym 'f exec_result = "(py_exn + 'f outcome option) \<times> 'f estate"

text \<open>\<^verbatim>\<open>node.get('data', {})\<close> and \<^verbatim>\<open>d.get(k, default)\<close>\<close>

definition data_of :: "'f node \<Rightarrow> (string \<times> 'f pyval) list" where
  "data_of n = (case ndata n of None \<Rightarrow> [] | Some d \<Rightarrow> d)"

definition dget :: "(string \<times> 'f pyval) list \<Rightarrow> string \<Rightarrow> 'f pyval \<Rightarrow> 'f pyval" where
  "dget d k dflt = (case map_of d k of Some v \<Rightarrow> v | None \<Rightarrow> dflt)"

definition log_append :: "string \<Rightarrow> 'f estate \<Rightarrow> 'f estate" where
  "log_append msg st = st\<lparr>execution_log := execution_log st @ [msg]\<rparr>"

text \<open>Truth value of a Python value (\<^verbatim>\<open>if v:\<close>).\<close>

definition truthy :: "'f pylib \<Rightarrow> 'f pyval \<Rightarrow> bool" where
  "truthy L v =
     (case v of
        PNone \<Rightarrow> False
      | PBool b \<Rightarrow> b
      | PInt i \<Rightarrow> i \<noteq> 0
      | PFloat x \<Rightarrow> \<not> f_is_zero L x
      | PStr s \<Rightarrow> s \<noteq> []
      | PList xs \<Rightarrow> xs \<noteq> []
      | PDict d \<Rightarrow> d \<noteq> [])"

definition hashable :: "'f pyval \<Rightarrow> bool" where
  "hashable v = (case v of PList _ \<Rightarrow> False | PDict _ \<Rightarrow> False | _ \<Rightarrow> True)"

text \<open>
  \<^verbatim>\<open>self.context[k] = v\<close>: \<^verbatim>\<open>TypeError\<close> for an unhashable key. Keys are
  compared as values of the model, which keeps the keys \<open>1\<close>, \<open>True\<close> and \<open>1.0\<close> apart
  where a Python dict has one key; string keys, the only ones the code looks up, are
  not affected.
\<close>

definition ctx_set :: "'f pyval \<Rightarrow> 'f pyval \<Rightarrow> 'f estate \<Rightarrow> py_exn + 'f estate" where
  "ctx_set k v st =
     (if hashable k then Inr (st\<lparr>ctx := AList.update k v (ctx st)\<rparr>) else Inl TypeError)"

definition bool_str :: "bool \<Rightarrow> string" where
  "bool_str b = (if b then ''True'' else ''False'')"

section \<open>Node executors\<close>

subsection \<open>variable\<close>

definition variable_value :: "'f pylib \<Rightarrow> 'f pyctx \<Rightarrow> 'f pyval \<Rightarrow> 'f pyval \<Rightarrow> 'f pyval" where
  "variable_value L c var_value var_type =
     (let v1 = (case var_value of
                  PStr s \<Rightarrow>
                    if is_exact_ref s then
                      (case map_of c (PStr (strip_ends s)) of Some v \<Rightarrow> v | None \<Rightarrow> PStr s)
                    else PStr (interpolate L c s)
                | _ \<Rightarrow> var_value)
      in case v1 of
           PStr s \<Rightarrow>
             if var_type = PStr ''json'' \<or> var_type = PStr ''array'' then
               (case json_loads L s of Some v \<Rightarrow> v | None \<Rightarrow> PStr s)
             else PStr s
         | _ \<Rightarrow> v1)"

definition exec_variable :: "'f pylib \<Rightarrow> (string \<times> 'f pyval) list \<Rightarrow> 'f estate \<Rightarrow> 'f exec_result" where
  "exec_variable L d st =
     (let var_name = dget d ''name'' PNone;
          var_value = dget d ''value'' PNone;
          var_type = dget d ''type'' (PStr ''string'')
      in if truthy L var_name then
           (let v = variable_value L (ctx st) var_value var_type
            in case ctx_set var_name v st of
                 Inl e \<Rightarrow> (Inl e, st)
               | Inr st' \<Rightarrow>
                   (Inr None,
                    log_append (''Set Variable '' @ [CHR 0x27] @ py_str L var_name @ [CHR 0x27]
                                @ '' = '' @ take 50 (py_str L v) @ ''...'') st'))
         else (Inr None, st))"

subsection \<open>logic\<close>

definition exec_logic :: "'f pylib \<Rightarrow> (string \<times> 'f pyval) list \<Rightarrow> 'f estate \<Rightarrow> 'f exec_result" where
  "exec_logic L d st =
     (case dget d ''condition'' (PStr ''False'') of
        PStr raw_condition \<Rightarrow>
          (let condition = replace ''!=='' ''!='' (replace ''==='' ''=='' raw_condition)
           in case eval_cond L condition (ctx st) of
                (Inr b, c') \<Rightarrow>
                  (Inr (Some (Logic b)),
                   log_append (''Logic: '' @ [CHR 0x27] @ raw_condition @ [CHR 0x27] @ '' -> ''
                               @ bool_str b) (st\<lparr>ctx := c'\<rparr>))
              | (Inl e, c') \<Rightarrow>
                  (Inr (Some (Logic False)),
                   log_append (''Logic Error: '' @ exn_msg L e) (st\<lparr>ctx := c'\<rparr>)))
      | _ \<Rightarrow> (Inl AttributeError, st))"

subsection \<open>math\<close>

text \<open>\<^verbatim>\<open>float(v)\<close>\<close>

definition py_float :: "'f pylib \<Rightarrow> 'f pyval \<Rightarrow> py_exn + 'f" where
  "py_float L v =
     (case v of
        PBool b \<Rightarrow> (case float_of_int L (if b then 1 else 0) of
                      Some x \<Rightarrow> Inr x | None \<Rightarrow> Inl OverflowError)
      | PInt i \<Rightarrow> (case float_of_int L i of Some x \<Rightarrow> Inr x | None \<Rightarrow> Inl OverflowError)
      | PFloat x \<Rightarrow> Inr x
      | PStr s \<Rightarrow> (case float_of_str L s of Some x \<Rightarrow> Inr x | None \<Rightarrow> Inl ValueError)
      | _ \<Rightarrow> Inl TypeError)"

text \<open>\<^verbatim>\<open>int(res)\<close> and \<^verbatim>\<open>res == i\<close> for a result that is an int or a float.\<close>

definition py_int :: "'f pylib \<Rightarrow> 'f pyval \<Rightarrow> py_exn + int" where
  "py_int L v =
     (case v of
        PInt i \<Rightarrow> Inr i
      | PBool b \<Rightarrow> Inr (if b then 1 else 0)
      | PFloat x \<Rightarrow> f_to_int L x
      | _ \<Rightarrow> Inl TypeError)"

definition num_eq_int :: "'f pylib \<Rightarrow> 'f pyval \<Rightarrow> int \<Rightarrow> bool" where
  "num_eq_int L v i =
     (case v of
        PInt j \<Rightarrow> j = i
      | PBool b \<Rightarrow> (if b then 1 else 0) = i
      | PFloat x \<Rightarrow> f_eq_int L x i
      | _ \<Rightarrow> False)"

text \<open>Lines 234-239: the operator applied to the two floats; \<open>res = 0\<close> otherwise.\<close>

definition math_apply :: "'f pylib \<Rightarrow> 'f pyval \<Rightarrow> 'f \<Rightarrow> 'f \<Rightarrow> py_exn + 'f pyval" where
  "math_apply L op num_a num_b =
     (if op = PStr ''+'' then Inr (PFloat (f_add L num_a num_b))
      else if op = PStr ''-'' then Inr (PFloat (f_sub L num_a num_b))
      else if op = PStr ''*'' then Inr (PFloat (f_mul L num_a num_b))
      else if op = PStr ''/'' then
        Inr (if \<not> f_is_zero L num_b then PFloat (f_div L num_a num_b) else PInt 0)
      else if op = PStr ''%'' then
        (case f_mod L num_a num_b of Some x \<Rightarrow> Inr (PFloat x) | None \<Rightarrow> Inl ZeroDivisionError)
      else Inr (PInt 0))"

text \<open>Lines 242-244: the cast back to int when both operands are whole.\<close>

definition math_cast :: "'f pylib \<Rightarrow> 'f \<Rightarrow> 'f \<Rightarrow> 'f pyval \<Rightarrow> py_exn + 'f pyval" where
  "math_cast L num_a num_b res =
     (if f_is_integer L num_a \<and> f_is_integer L num_b then
        (case py_int L res of
           Inl e \<Rightarrow> Inl e
         | Inr i \<Rightarrow>
             (let res1 = (if \<not> num_eq_int L res i then PInt i else res)
              in case py_int L res1 of
                   Inl e \<Rightarrow> Inl e
                 | Inr j \<Rightarrow> Inr (if num_eq_int L res1 j then PInt j else res1)))
      else Inr res)"

text \<open>The \<^verbatim>\<open>try\<close> block of lines 230-247; \<open>Inl\<close> is the exception it raised.\<close>

definition math_try ::
  "'f pylib \<Rightarrow> 'f pyval \<Rightarrow> 'f pyval \<Rightarrow> 'f pyval \<Rightarrow> 'f pyval \<Rightarrow> 'f estate \<Rightarrow> py_exn + 'f estate" where
  "math_try L val_a val_b op result_var st =
     (case py_float L val_a of
        Inl e \<Rightarrow> Inl e
      | Inr num_a \<Rightarrow>
     (case py_float L val_b of
        Inl e \<Rightarrow> Inl e
      | Inr num_b \<Rightarrow>
     (case math_apply L op num_a num_b of
        Inl e \<Rightarrow> Inl e
      | Inr res0 \<Rightarrow>
     (case math_cast L num_a num_b res0 of
        Inl e \<Rightarrow> Inl e
      | Inr res \<Rightarrow>
     (case ctx_set result_var res st of
        Inl e \<Rightarrow> Inl e
      | Inr st' \<Rightarrow>
          Inr (log_append (''Math: '' @ py_str L (PFloat num_a) @ '' '' @ py_str L op @ '' ''
                           @ py_str L (PFloat num_b) @ '' = '' @ py_str L res) st'))))))"

definition exec_math :: "'f pylib \<Rightarrow> (string \<times> 'f pyval) list \<Rightarrow> 'f estate \<Rightarrow> 'f exec_result" where
  "exec_math L d st =
     (let val_a = resolve_val L (ctx st) (dget d ''valA'' PNone);
          val_b = resolve_val L (ctx st) (dget d ''valB'' PNone);
          op = dget d ''op'' (PStr ''+'');
          result_var = dget d ''resultVar'' (PStr ''result'')
      in case math_try L val_a val_b op result_var st of
           Inr st' \<Rightarrow> (Inr None, st')
         | Inl e \<Rightarrow>
             if op = PStr ''+'' then
               (let res = PStr (py_str L val_a @ py_str L val_b)
                in case ctx_set result_var res st of
                     Inl e' \<Rightarrow> (Inl e', st)
                   | Inr st' \<Rightarrow>
                       (Inr None,
                        log_append (''Math (Str): '' @ py_str L val_a @ '' + '' @ py_str L val_b
                                    @ '' = '' @ py_str L res) st'))
             else
               (Inr None,
                log_append (''Math Error: Could not process '' @ py_str L val_a @ '' ''
                            @ py_str L op @ '' '' @ py_str L val_b) st))"

subsection \<open>data_op\<close>

text \<open>
  The first resolution of a collection (lines 264-269): the resolved template, and when it
  is still a string, the Context entry of that name.
\<close>

definition data_collection :: "'f pylib \<Rightarrow> 'f pyctx \<Rightarrow> 'f pyval \<Rightarrow> 'f pyval" where
  "data_collection L c collection_source =
     (case resolve_val L c collection_source of
        PStr s \<Rightarrow>
          (case map_of c (PStr s) of
             Some v \<Rightarrow> v
           | None \<Rightarrow> if s = ''body'' then
                       (case map_of c (PStr ''body'') of Some v \<Rightarrow> v | None \<Rightarrow> PList [])
                     else PStr s)
      | v \<Rightarrow> v)"

text \<open>The entries that \<^verbatim>\<open>float\<close> accepts (lines 277-282).\<close>

fun extract_nums :: "'f pylib \<Rightarrow> 'f pyval list \<Rightarrow> 'f list" where
  "extract_nums L [] = []"
| "extract_nums L (x # xs) =
     (case py_float L x of Inr y \<Rightarrow> y # extract_nums L xs | Inl e \<Rightarrow> extract_nums L xs)"

text \<open>\<^verbatim>\<open>sum(nums)\<close> starts from the int 0.\<close>

definition py_sum :: "'f pylib \<Rightarrow> 'f list \<Rightarrow> py_exn + 'f pyval" where
  "py_sum L nums =
     (if nums = [] then Inr (PInt 0)
      else case float_of_int L 0 of
             None \<Rightarrow> Inl OverflowError
           | Some z \<Rightarrow> Inr (PFloat (foldl (f_add L) z nums)))"

definition data_apply :: "'f pylib \<Rightarrow> 'f pyval \<Rightarrow> 'f pyval list \<Rightarrow> 'f list \<Rightarrow> py_exn + 'f pyval" where
  "data_apply L op collection nums =
     (if op = PStr ''count'' then Inr (PInt (int (length collection)))
      else if op = PStr ''sum'' then py_sum L nums
      else if op = PStr ''avg'' then
        (if nums \<noteq> [] then
           (case py_sum L nums of
              Inl e \<Rightarrow> Inl e
            | Inr (PFloat t) \<Rightarrow>
                (case float_of_int L (int (length nums)) of
                   None \<Rightarrow> Inl OverflowError
                 | Some n \<Rightarrow> Inr (PFloat (f_div L t n)))
            | Inr v \<Rightarrow> Inr v)
         else Inr (PInt 0))
      else if op = PStr ''min'' then
        (if nums \<noteq> [] then
           Inr (PFloat (foldl (\<lambda>m x. if f_less L x m then x else m) (hd nums) (tl nums)))
         else Inr (PInt 0))
      else if op = PStr ''max'' then
        (if nums \<noteq> [] then
           Inr (PFloat (foldl (\<lambda>m x. if f_less L m x then x else m) (hd nums) (tl nums)))
         else Inr (PInt 0))
      else Inr (PInt 0))"

text \<open>Lines 297-298: a float result that is whole becomes an int.\<close>

definition clean_int :: "'f pylib \<Rightarrow> 'f pyval \<Rightarrow> py_exn + 'f pyval" where
  "clean_int L res =
     (case res of
        PFloat x \<Rightarrow>
          if f_is_integer L x then
            (case f_to_int L x of Inl e \<Rightarrow> Inl e | Inr i \<Rightarrow> Inr (PInt i))
          else Inr res
      | _ \<Rightarrow> Inr res)"

definition exec_data_op :: "'f pylib \<Rightarrow> (string \<times> 'f pyval) list \<Rightarrow> 'f estate \<Rightarrow> 'f exec_result" where
  "exec_data_op L d st =
     (let op = dget d ''op'' (PStr ''sum'');
          result_var = dget d ''resultVar'' (PStr ''summary'');
          resolved = data_collection L (ctx st) (dget d ''collection'' (PStr []));
          collection = (case resolved of PList xs \<Rightarrow> xs | _ \<Rightarrow> []);
          st1 = (case resolved of
                   PList xs \<Rightarrow> st
                 | v \<Rightarrow> log_append (''DataNode Error: Input is not a list. Value: ''
                                      @ take 20 (py_str L v)) st)
      in case data_apply L op collection (extract_nums L collection) of
           Inl e \<Rightarrow> (Inl e, st1)
         | Inr res0 \<Rightarrow>
             (case clean_int L res0 of
                Inl e \<Rightarrow> (Inl e, st1)
              | Inr res \<Rightarrow>
                  (case ctx_set result_var res st1 of
                     Inl e \<Rightarrow> (Inl e, st1)
                   | Inr st2 \<Rightarrow>
                       (Inr None,
                        log_append (''Data Op: '' @ py_str L op @ ''(len=''
                                    @ py_str L (PInt (int (length collection))) @ '') = ''
                                    @ py_str L res) st2))))"

subsection \<open>interface\<close>

text \<open>
  \<^verbatim>\<open>x in c\<close> and \<^verbatim>\<open>c[k]\<close>: on an object with a string key they are the key test and
  the key lookup; on every other pair of values they are the language's.
\<close>

definition py_in :: "'f pylib \<Rightarrow> 'f pyval \<Rightarrow> 'f pyval \<Rightarrow> py_exn + bool" where
  "py_in L x c =
     (case c of
        PDict d \<Rightarrow> (case x of PStr n \<Rightarrow> Inr (map_of d n \<noteq> None) | _ \<Rightarrow> op_in L x c)
      | _ \<Rightarrow> op_in L x c)"

definition py_getitem :: "'f pylib \<Rightarrow> 'f pyval \<Rightarrow> 'f pyval \<Rightarrow> py_exn + 'f pyval" where
  "py_getitem L c k =
     (case c of
        PDict d \<Rightarrow>
          (case k of
             PStr n \<Rightarrow> (case map_of d n of Some v \<Rightarrow> Inr v | None \<Rightarrow> Inl KeyError)
           | _ \<Rightarrow> op_getitem L c k)
      | _ \<Rightarrow> op_getitem L c k)"

text \<open>The elements a \<^verbatim>\<open>for\<close> loop visits.\<close>

definition py_iter :: "'f pyval \<Rightarrow> py_exn + 'f pyval list" where
  "py_iter v =
     (case v of
        PList xs \<Rightarrow> Inr xs
      | PStr s \<Rightarrow> Inr (map (\<lambda>c. PStr [c]) s)
      | PDict d \<Rightarrow> Inr (map (\<lambda>(k, _). PStr k) d)
      | _ \<Rightarrow> Inl TypeError)"

text \<open>\<^verbatim>\<open>isinstance(val, (int, float))\<close>: in Python \<^verbatim>\<open>bool\<close> is a subclass of \<^verbatim>\<open>int\<close>.\<close>

definition is_int_or_float :: "'f pyval \<Rightarrow> bool" where
  "is_int_or_float v = (case v of PInt _ \<Rightarrow> True | PFloat _ \<Rightarrow> True | PBool _ \<Rightarrow> True | _ \<Rightarrow> False)"

definition is_str :: "'f pyval \<Rightarrow> bool" where
  "is_str v = (case v of PStr _ \<Rightarrow> True | _ \<Rightarrow> False)"

definition is_bool :: "'f pyval \<Rightarrow> bool" where
  "is_bool v = (case v of PBool _ \<Rightarrow> True | _ \<Rightarrow> False)"

definition is_dict :: "'f pyval \<Rightarrow> bool" where
  "is_dict v = (case v of PDict _ \<Rightarrow> True | _ \<Rightarrow> False)"

definition is_list :: "'f pyval \<Rightarrow> bool" where
  "is_list v = (case v of PList _ \<Rightarrow> True | _ \<Rightarrow> False)"

text \<open>The type check of lines 326-337: the entries added to \<open>invalid_types\<close>.\<close>

definition type_check :: "'f pylib \<Rightarrow> 'f pyval \<Rightarrow> 'f pyval \<Rightarrow> 'f pyval \<Rightarrow> string list" where
  "type_check L name f_type val =
     (if f_type = PStr ''string'' \<and> \<not> is_str val then [py_str L name @ '' (expected string)'']
      else if f_type = PStr ''number'' \<and> \<not> is_int_or_float val then
        [py_str L name @ '' (expected number)'']
      else if f_type = PStr ''boolean'' \<and> \<not> is_bool val then
        [py_str L name @ '' (expected boolean)'']
      else if f_type = PStr ''object'' \<and> \<not> is_dict val then
        [py_str L name @ '' (expected object)'']
      else if f_type = PStr ''array'' \<and> \<not> is_list val then
        [py_str L name @ '' (expected array)'']
      else [])"

text \<open>One pass of the loop over the field descriptors (lines 311-337).\<close>

definition check_present ::
  "'f pylib \<Rightarrow> 'f pyval \<Rightarrow> 'f pyval \<Rightarrow> 'f pyval \<Rightarrow> 'f pyval list \<times> string list
     \<Rightarrow> py_exn + ('f pyval list \<times> string list)" where
  "check_present L body name f_type acc =
     (case py_in L name body of
        Inl e \<Rightarrow> Inl e
      | Inr False \<Rightarrow> Inr acc
      | Inr True \<Rightarrow>
          (case py_getitem L body name of
             Inl e \<Rightarrow> Inl e
           | Inr val \<Rightarrow> Inr (fst acc, snd acc @ type_check L name f_type val)))"

definition check_field ::
  "'f pylib \<Rightarrow> 'f pyval \<Rightarrow> 'f pyval \<Rightarrow> 'f pyval list \<times> string list
     \<Rightarrow> py_exn + ('f pyval list \<times> string list)" where
  "check_field L body field acc =
     (case field of
        PDict fd \<Rightarrow>
          (let name = dget fd ''name'' PNone;
               required = dget fd ''required'' (PBool False);
               f_type = dget fd ''type'' (PStr ''string'')
           in if \<not> truthy L name then Inr acc
              else if truthy L required then
                (case py_in L name body of
                   Inl e \<Rightarrow> Inl e
                 | Inr False \<Rightarrow> Inr (fst acc @ [name], snd acc)
                 | Inr True \<Rightarrow> check_present L body name f_type acc)
              else check_present L body name f_type acc)
      | _ \<Rightarrow> Inl AttributeError)"

fun check_fields ::
  "'f pylib \<Rightarrow> 'f pyval \<Rightarrow> 'f pyval list \<Rightarrow> 'f pyval list \<times> string list
     \<Rightarrow> py_exn + ('f pyval list \<times> string list)" where
  "check_fields L body [] acc = Inr acc"
| "check_fields L body (field # rest) acc =
     (case check_field L body field acc of
        Inl e \<Rightarrow> Inl e
      | Inr acc1 \<Rightarrow> check_fields L body rest acc1)"

text \<open>\<^verbatim>\<open>sep.join(xs)\<close>: every element must be a string.\<close>

fun join_strs :: "string \<Rightarrow> string list \<Rightarrow> string" where
  "join_strs sep [] = []"
| "join_strs sep [x] = x"
| "join_strs sep (x # y # ys) = x @ sep @ join_strs sep (y # ys)"

fun all_strs :: "'f pyval list \<Rightarrow> string list option" where
  "all_strs [] = Some []"
| "all_strs (PStr s # xs) = (case all_strs xs of Some ss \<Rightarrow> Some (s # ss) | None \<Rightarrow> None)"
| "all_strs (_ # xs) = None"

definition py_join :: "string \<Rightarrow> 'f pyval list \<Rightarrow> py_exn + string" where
  "py_join sep xs = (case all_strs xs of Some ss \<Rightarrow> Inr (join_strs sep ss) | None \<Rightarrow> Inl TypeError)"

text \<open>\<^verbatim>\<open>s.strip()\<close>, on the ASCII white space.\<close>

definition is_space :: "char \<Rightarrow> bool" where
  "is_space c = (c \<in> set [CHR 0x20, CHR 0x09, CHR 0x0A, CHR 0x0B, CHR 0x0C, CHR 0x0D,
                            CHR 0x1C, CHR 0x1D, CHR 0x1E, CHR 0x1F])"

definition py_strip :: "string \<Rightarrow> string" where
  "py_strip s = rev (dropWhile is_space (rev (dropWhile is_space s)))"

text \<open>Lines 340-344: the message of a failed validation.\<close>

definition validation_msg :: "'f pyval list \<Rightarrow> string list \<Rightarrow> py_exn + string" where
  "validation_msg missing invalid_types =
     (case (if missing \<noteq> [] then
              (case py_join '', '' missing of
                 Inl e \<Rightarrow> Inl e
               | Inr j \<Rightarrow> Inr (''Validation Error: '' @ ''Missing fields: '' @ j @ ''. ''))
            else Inr ''Validation Error: '') of
        Inl e \<Rightarrow> Inl e
      | Inr m \<Rightarrow>
          Inr (if invalid_types \<noteq> [] then
                 m @ ''Invalid types: '' @ join_strs '', '' invalid_types @ ''.''
               else m))"

definition exec_interface :: "'f pylib \<Rightarrow> (string \<times> 'f pyval) list \<Rightarrow> 'f estate \<Rightarrow> 'f exec_result" where
  "exec_interface L d st =
     (let body = (case map_of (ctx st) (PStr ''body'') of Some b \<Rightarrow> b | None \<Rightarrow> PDict [])
      in case py_iter (dget d ''fields'' (PList [])) of
           Inl e \<Rightarrow> (Inl e, st)
         | Inr fs \<Rightarrow>
             (case check_fields L body fs ([], []) of
                Inl e \<Rightarrow> (Inl e, st)
              | Inr (missing, invalid_types) \<Rightarrow>
                  if missing \<noteq> [] \<or> invalid_types \<noteq> [] then
                    (case validation_msg missing invalid_types of
                       Inl e \<Rightarrow> (Inl e, st)
                     | Inr error_msg \<Rightarrow>
                         (Inr (Some (Response (PDict
                            [(''error'', PStr ''Bad Request''),
                             (''message'', PStr (py_strip error_msg)),
                             (''details'', PDict
                                [(''missing'', PList missing),
                                 (''invalid'', PList (map PStr invalid_types))])]))),
                          log_append (''Interface Validation Failed: '' @ error_msg) st))
                  else (Inr None, log_append ''Interface Validation Passed'' st)))"

subsection \<open>loop\<close>

fun split_on :: "char \<Rightarrow> string \<Rightarrow> string list" where
  "split_on c [] = [[]]"
| "split_on c (x # xs) =
     (if x = c then [] # split_on c xs
      else (case split_on c xs of w # ws \<Rightarrow> (x # w) # ws | [] \<Rightarrow> [[x]]))"

text \<open>Lines 374-379: walking a dotted path into the body.\<close>

fun walk_path :: "'f pyval \<Rightarrow> string list \<Rightarrow> 'f pyval" where
  "walk_path cur [] = cur"
| "walk_path cur (part # parts) =
     (case cur of
        PDict o1 \<Rightarrow> walk_path (case map_of o1 part of Some v \<Rightarrow> v | None \<Rightarrow> PNone) parts
      | _ \<Rightarrow> PList [])"

definition loop_collection :: "'f pylib \<Rightarrow> 'f pyctx \<Rightarrow> 'f pyval \<Rightarrow> 'f pyval" where
  "loop_collection L c collection_source =
     (case resolve_val L c collection_source of
        PStr s \<Rightarrow>
          if startswith s ''body.'' then
            walk_path (case map_of c (PStr ''body'') of Some b \<Rightarrow> b | None \<Rightarrow> PDict [])
                      (tl (split_on (CHR ''.'') s))
          else if s = ''body'' then
            (case map_of c (PStr ''body'') of Some b \<Rightarrow> b | None \<Rightarrow> PList [])
          else (case map_of c (PStr s) of Some v \<Rightarrow> v | None \<Rightarrow> PStr s)
      | v \<Rightarrow> v)"

text \<open>\<^verbatim>\<open>str(type(v))\<close>\<close>

definition type_repr :: "'f pyval \<Rightarrow> string" where
  "type_repr v =
     ''<class '' @ [CHR 0x27] @
     (case v of
        PNone \<Rightarrow> ''NoneType'' | PBool _ \<Rightarrow> ''bool'' | PInt _ \<Rightarrow> ''int'' | PFloat _ \<Rightarrow> ''float''
      | PStr _ \<Rightarrow> ''str'' | PList _ \<Rightarrow> ''list'' | PDict _ \<Rightarrow> ''dict'')
     @ [CHR 0x27] @ ''>''"

text \<open>\<^verbatim>\<open>idx < n\<close>, \<^verbatim>\<open>collection[idx]\<close> and \<^verbatim>\<open>idx + 1\<close> for a stored index.\<close>

definition idx_less :: "'f pylib \<Rightarrow> 'f pyval \<Rightarrow> nat \<Rightarrow> py_exn + bool" where
  "idx_less L idx n =
     (case idx of
        PInt i \<Rightarrow> Inr (i < int n)
      | PBool b \<Rightarrow> Inr ((if b then 1 else 0) < int n)
      | PFloat x \<Rightarrow> Inr (f_less_int L x (int n))
      | _ \<Rightarrow> Inl TypeError)"

definition int_index :: "'f pyval list \<Rightarrow> int \<Rightarrow> py_exn + 'f pyval" where
  "int_index xs i =
     (if 0 \<le> i then
        (if i < int (length xs) then Inr (xs ! nat i) else Inl IndexError)
      else if - int (length xs) \<le> i then Inr (xs ! nat (int (length xs) + i))
      else Inl IndexError)"

definition list_index :: "'f pyval list \<Rightarrow> 'f pyval \<Rightarrow> py_exn + 'f pyval" where
  "list_index xs idx =
     (case idx of
        PInt i \<Rightarrow> int_index xs i
      | PBool b \<Rightarrow> int_index xs (if b then 1 else 0)
      | _ \<Rightarrow> Inl TypeError)"

definition idx_succ :: "'f pyval \<Rightarrow> 'f pyval" where
  "idx_succ idx =
     (case idx of PInt i \<Rightarrow> PInt (i + 1) | PBool b \<Rightarrow> PInt ((if b then 1 else 0) + 1) | v \<Rightarrow> v)"

text \<open>
  \<^verbatim>\<open>state['index'] = v; loop_states[node_id] = state\<close>. The dict \<open>loop_states\<close> is the
  object stored under \<^verbatim>\<open>_loop_states\<close>, so the Context sees the update, unless
  \<open>rebound\<close>: the loop variable is itself named \<^verbatim>\<open>_loop_states\<close> and the entry
  was overwritten by the item.
\<close>

definition store_state ::
  "bool \<Rightarrow> string \<Rightarrow> (string \<times> 'f pyval) list \<Rightarrow> (string \<times> 'f pyval) list \<Rightarrow> 'f pyval
     \<Rightarrow> 'f estate \<Rightarrow> 'f estate" where
  "store_state rebound node_id loop_states state v st =
     (if rebound then st
      else st\<lparr>ctx := AList.update (PStr ''_loop_states'')
                        (PDict (AList.update node_id (PDict (AList.update ''index'' v state))
                                  loop_states))
                        (ctx st)\<rparr>)"

text \<open>Lines 397-414, with the collection, the loop states and this node's state at hand.\<close>

definition loop_step ::
  "'f pylib \<Rightarrow> string \<Rightarrow> 'f pyval \<Rightarrow> 'f pyval list \<Rightarrow> (string \<times> 'f pyval) list
     \<Rightarrow> (string \<times> 'f pyval) list \<Rightarrow> 'f pyval \<Rightarrow> 'f estate \<Rightarrow> 'f exec_result" where
  "loop_step L node_id item_var collection loop_states state idx st =
     (case idx_less L idx (length collection) of
        Inl e \<Rightarrow> (Inl e, st)
      | Inr True \<Rightarrow>
          (case list_index collection idx of
             Inl e \<Rightarrow> (Inl e, st)
           | Inr item \<Rightarrow>
               (case (if truthy L item_var then ctx_set item_var item st else Inr st) of
                  Inl e \<Rightarrow> (Inl e, st)
                | Inr st1 \<Rightarrow>
                    (Inr (Some (Loop ''do'')),
                     store_state (truthy L item_var \<and> item_var = PStr ''_loop_states'')
                       node_id loop_states state (idx_succ idx)
                       (log_append (''Loop '' @ node_id @ '': Item '' @ py_str L idx @ '' = ''
                                    @ take 20 (py_str L item)) st1))))
      | Inr False \<Rightarrow>
          (Inr (Some (Loop ''done'')),
           store_state False node_id loop_states state (PInt 0)
             (log_append (''Loop '' @ node_id @ '': Done'') st)))"

definition exec_loop :: "'f pylib \<Rightarrow> string \<Rightarrow> (string \<times> 'f pyval) list \<Rightarrow> 'f estate \<Rightarrow> 'f exec_result" where
  "exec_loop L node_id d st =
     (let collection_source = dget d ''collection'' (PStr []);
          item_var = dget d ''variable'' (PStr ''item'');
          resolved = loop_collection L (ctx st) collection_source;
          collection = (case resolved of PList xs \<Rightarrow> xs | _ \<Rightarrow> []);
          st1 = (case resolved of
                   PList xs \<Rightarrow> st
                 | v \<Rightarrow> log_append (''Loop Error: Collection '' @ [CHR 0x27]
                                      @ py_str L collection_source @ [CHR 0x27] @ '' resolved to ''
                                      @ type_repr v @ '', expected list. Defaulting to empty.'') st);
          st2 = (case map_of (ctx st1) (PStr ''_loop_states'') of
                   Some v \<Rightarrow> st1
                 | None \<Rightarrow> st1\<lparr>ctx := AList.update (PStr ''_loop_states'') (PDict []) (ctx st1)\<rparr>)
      in case map_of (ctx st2) (PStr ''_loop_states'') of
           Some (PDict loop_states) \<Rightarrow>
             (case (case map_of loop_states node_id of
                      Some s \<Rightarrow> s | None \<Rightarrow> PDict [(''index'', PInt 0)]) of
                PDict state \<Rightarrow>
                  (case map_of state ''index'' of
                     None \<Rightarrow> (Inl KeyError, st2)
                   | Some idx \<Rightarrow>
                       loop_step L node_id item_var collection loop_states state idx st2)
              | _ \<Rightarrow> (Inl TypeError, st2))
         | _ \<Rightarrow> (Inl AttributeError, st2))"

subsection \<open>function and response\<close>

definition exec_function :: "'f pylib \<Rightarrow> (string \<times> 'f pyval) list \<Rightarrow> 'f estate \<Rightarrow> 'f exec_result" where
  "exec_function L d st =
     (Inr None, log_append (''Ran function '' @ py_str L (dget d ''name'' (PStr ''func''))) st)"

text \<open>\<^verbatim>\<open>s.strip('{}')\<close>\<close>

definition strip_braces :: "string \<Rightarrow> string" where
  "strip_braces s =
     rev (dropWhile (\<lambda>c. c = CHR ''{'' \<or> c = CHR ''}'')
            (rev (dropWhile (\<lambda>c. c = CHR ''{'' \<or> c = CHR ''}'') s)))"

text \<open>Lines 471-480: the text that replaces a placeholder in a response body.\<close>

definition render :: "'f pylib \<Rightarrow> 'f pyval \<Rightarrow> string" where
  "render L v =
     (case v of
        PBool b \<Rightarrow> (if b then ''true'' else ''false'')
      | PList _ \<Rightarrow> json_dumps L v
      | PDict _ \<Rightarrow> json_dumps L v
      | _ \<Rightarrow> py_str L v)"

fun substitute_body :: "'f pylib \<Rightarrow> 'f pyctx \<Rightarrow> string \<Rightarrow> string" where
  "substitute_body L [] s = s"
| "substitute_body L ((k, v) # kvs) s =
     substitute_body L kvs
       (if contains (placeholder L k) s then replace (placeholder L k) (render L v) s else s)"

text \<open>
  A body that is not a string makes the \<^verbatim>\<open>try\<close> block of lines 433-482 raise:
  \<^verbatim>\<open>AttributeError\<close> at \<^verbatim>\<open>replace\<close> when a placeholder is a key of the object or
  an element of the array, \<^verbatim>\<open>TypeError\<close> otherwise.
\<close>

definition holds_str :: "string \<Rightarrow> 'f pyval \<Rightarrow> bool" where
  "holds_str p v =
     (case v of PDict d \<Rightarrow> map_of d p \<noteq> None | PList xs \<Rightarrow> PStr p \<in> set xs | _ \<Rightarrow> False)"

definition body_exn :: "'f pylib \<Rightarrow> 'f pyctx \<Rightarrow> 'f pyval \<Rightarrow> py_exn" where
  "body_exn L c body_def =
     (if list_ex (\<lambda>(k, v). holds_str (placeholder L k) body_def) c then AttributeError
      else TypeError)"

definition exec_response :: "'f pylib \<Rightarrow> (string \<times> 'f pyval) list \<Rightarrow> 'f estate \<Rightarrow> 'f exec_result" where
  "exec_response L d st =
     (let resp_type = dget d ''responseType'' (PStr ''json'');
          body_def = dget d ''body'' (PStr ''{}'')
      in if resp_type = PStr ''variable'' then
           (if \<not> hashable body_def then (Inl TypeError, st)
            else
              (let val = (case map_of (ctx st) body_def of Some v \<Rightarrow> v | None \<Rightarrow> PNone);
                   val2 = (case body_def of
                             PStr s \<Rightarrow>
                               if \<not> truthy L val \<and> startswith s ''{'' \<and> endswith s ''}'' then
                                 (case map_of (ctx st) (PStr (strip_braces s)) of
                                    Some v \<Rightarrow> v | None \<Rightarrow> PNone)
                               else val
                           | _ \<Rightarrow> val)
               in (Inr (Some (Response val2)), st)))
         else
           (case (case body_def of
                    PStr s \<Rightarrow>
                      (case json_loads L (substitute_body L (ctx st) s) of
                         Some v \<Rightarrow> Inr v | None \<Rightarrow> Inl JSONDecodeError)
                  | _ \<Rightarrow> Inl (body_exn L (ctx st) body_def)) of
              Inr v \<Rightarrow> (Inr (Some (Response v)), st)
            | Inl e \<Rightarrow>
                (Inr (Some (Response (PDict [(''raw'', body_def),
                                             (''error'', PStr ''JSON parse error'')]))),
                 log_append (''Error parsing response body: '' @ exn_msg L e) st)))"

subsection \<open>Dispatch on the node type\<close>

definition execute_node :: "'f pylib \<Rightarrow> 'f node \<Rightarrow> 'f estate \<Rightarrow> 'f exec_result" where
  "execute_node L node st =
     (let node_type = ntype node; d = data_of node
      in if node_type = ''api'' then (Inr None, st)
         else if node_type = ''variable'' then exec_variable L d st
         else if node_type = ''logic'' then exec_logic L d st
         else if node_type = ''math'' then exec_math L d st
         else if node_type = ''data_op'' then exec_data_op L d st
         else if node_type = ''interface'' then exec_interface L d st
         else if node_type = ''loop'' then exec_loop L (nid node) d st
         else if node_type = ''function'' then exec_function L d st
         else if node_type = ''response'' then exec_response L d st
         else (Inr None, st))"

section \<open>The executor\<close>

text \<open>
  An edge is \<^verbatim>\<open>{source, target, sourceHandle}\<close>; a handle that is absent, null or not a
  string is \<open>None\<close> (the code only compares it with string literals).
\<close>

record edge =
  source :: string
  target :: string
  sourceHandle :: "string option"

record 'f workflow =
  wf_nodes :: "'f node list"
  wf_edges :: "edge list"

text \<open>The read-only part of a \<^verbatim>\<open>WorkflowExecutor\<close> (lines 6-17).\<close>

record 'f graph =
  nodes :: "(string \<times> 'f node) list"
  adjacency :: "(string \<times> (string \<times> string option) list) list"

definition add_edge ::
  "edge \<Rightarrow> (string \<times> (string \<times> string option) list) list
     \<Rightarrow> (string \<times> (string \<times> string option) list) list" where
  "add_edge e adj =
     AList.update (source e)
       ((case map_of adj (source e) of None \<Rightarrow> [] | Some es \<Rightarrow> es) @ [(target e, sourceHandle e)])
       adj"

definition init_graph :: "'f workflow \<Rightarrow> 'f graph" where
  "init_graph workflow_data =
     \<lparr>nodes = fold (\<lambda>n m. AList.update (nid n) n m) (wf_nodes workflow_data) [],
      adjacency = fold add_edge (wf_edges workflow_data) []\<rparr>"

text \<open>\<^verbatim>\<open>self.context = {}\<close>, \<^verbatim>\<open>self.execution_log = []\<close> (lines 19-20).\<close>

definition init_state :: "'f estate" where
  "init_state = \<lparr>ctx = [], execution_log = []\<rparr>"

definition WorkflowExecutor :: "'f workflow \<Rightarrow> 'f graph \<times> 'f estate" where
  "WorkflowExecutor workflow_data = (init_graph workflow_data, init_state)"

text \<open>The dict that \<open>run\<close> returns: a field that is \<open>None\<close> is absent from it.\<close>

record 'f result =
  r_status :: "string option"
  r_response :: "'f pyval option"
  r_message :: "string option"
  r_error :: "string option"
  r_logs :: "string list option"
  r_context :: "'f pyctx option"

definition no_entry_result :: "'f result" where
  "no_entry_result =
     \<lparr>r_status = None, r_response = None, r_message = None,
      r_error = Some ''No API Entry Point found'', r_logs = None, r_context = None\<rparr>"

definition response_result :: "'f pyval \<Rightarrow> 'f estate \<Rightarrow> 'f result" where
  "response_result payload st =
     \<lparr>r_status = Some ''success'', r_response = Some payload, r_message = None,
      r_error = None, r_logs = Some (execution_log st), r_context = Some (ctx st)\<rparr>"

definition error_result :: "string \<Rightarrow> 'f estate \<Rightarrow> 'f result" where
  "error_result msg st =
     \<lparr>r_status = Some ''error'', r_response = None, r_message = None,
      r_error = Some msg, r_logs = Some (execution_log st), r_context = None\<rparr>"

definition completed_result :: "'f estate \<Rightarrow> 'f result" where
  "completed_result st =
     \<lparr>r_status = Some ''success'', r_response = None,
      r_message = Some ''Workflow completed without specific response'',
      r_error = None, r_logs = Some (execution_log st), r_context = Some (ctx st)\<rparr>"

subsection \<open>Routing\<close>

datatype node_res = RNone | RBool bool | RStr string

definition node_result :: "'f outcome option \<Rightarrow> node_res" where
  "node_result res =
     (case res of
        Some (Logic b) \<Rightarrow> RBool b
      | Some (Loop s) \<Rightarrow> RStr s
      | _ \<Rightarrow> RNone)"

text \<open>Lines 117-131: whether an edge with this handle is taken.\<close>

definition edge_taken :: "string \<Rightarrow> node_res \<Rightarrow> string option \<Rightarrow> bool" where
  "edge_taken node_type nr handle =
     (if node_type = ''logic'' then
        (nr = RBool True \<and> handle = Some ''true'') \<or> (nr = RBool False \<and> handle = Some ''false'')
      else if node_type = ''loop'' then
        (nr = RStr ''do'' \<and> handle = Some ''do'') \<or> (nr = RStr ''done'' \<and> handle = Some ''done'')
      else True)"

definition route :: "'f graph \<Rightarrow> string \<Rightarrow> string \<Rightarrow> node_res \<Rightarrow> string list" where
  "route g node_id node_type nr =
     (case map_of (adjacency g) node_id of
        None \<Rightarrow> []
      | Some es \<Rightarrow> map fst (filter (\<lambda>(t, h). edge_taken node_type nr h) es))"

subsection \<open>One wave\<close>

text \<open>
  What processing a wave ends in: an exception that leaves \<open>run\<close>, a result that
  \<open>run\<close> returns, or the next layer.
\<close>

datatype 'f step = Raised py_exn | Returned "'f result" | Continue "string list"

text \<open>
  The \<^verbatim>\<open>for\<close> loop of lines 71-131. \<^verbatim>\<open>self.nodes[node_id]\<close> is outside the
  \<^verbatim>\<open>try\<close>: an id that names no node raises \<^verbatim>\<open>KeyError\<close> out of \<open>run\<close>.
\<close>

fun process_layer ::
  "'f pylib \<Rightarrow> 'f graph \<Rightarrow> string list \<Rightarrow> string list \<Rightarrow> 'f estate \<Rightarrow> 'f step \<times> 'f estate" where
  "process_layer L g [] next_layer st = (Continue next_layer, st)"
| "process_layer L g (node_id # rest) next_layer st =
     (case map_of (nodes g) node_id of
        None \<Rightarrow> (Raised KeyError, st)
      | Some node \<Rightarrow>
          (case execute_node L node
                  (log_append (''Executing Node: '' @ ntype node @ '' ('' @ node_id @ '')'') st) of
             (Inl e, st1) \<Rightarrow>
               (let st2 = log_append (''Error executing node '' @ node_id @ '': '' @ exn_msg L e) st1
                in (Returned (error_result (exn_msg L e) st2), st2))
           | (Inr (Some (Response payload)), st1) \<Rightarrow> (Returned (response_result payload st1), st1)
           | (Inr res, st1) \<Rightarrow>
               process_layer L g rest
                 (next_layer @ route g node_id (ntype node) (node_result res)) st1))"

subsection \<open>The traversal\<close>

text \<open>
  The \<^verbatim>\<open>while\<close> loop of lines 66-134 and the final \<^verbatim>\<open>return\<close>. The last
  component is \<open>entry_count\<close> when the loop is left: the number of waves run.
\<close>

function run_waves ::
  "'f pylib \<Rightarrow> 'f graph \<Rightarrow> string list \<Rightarrow> nat \<Rightarrow> 'f estate
     \<Rightarrow> (py_exn + 'f result) \<times> 'f estate \<times> nat" where
  "run_waves L g current_nodes entry_count st =
     (if current_nodes \<noteq> [] \<and> entry_count < 1000 then
        (case process_layer L g current_nodes [] st of
           (Raised e, st1) \<Rightarrow> (Inl e, st1, entry_count + 1)
         | (Returned r, st1) \<Rightarrow> (Inr r, st1, entry_count + 1)
         | (Continue next_layer, st1) \<Rightarrow>
             run_waves L g (set_list L next_layer) (entry_count + 1) st1)
      else (Inr (completed_result st), st, entry_count))"
  by pat_completeness auto
termination
  by (relation "measure (\<lambda>(L, g, current_nodes, entry_count, st). 1000 - entry_count)") auto

subsection \<open>run\<close>

text \<open>Lines 27-29: every variable node is executed first, outside any \<^verbatim>\<open>try\<close>.\<close>

fun init_variables ::
  "'f pylib \<Rightarrow> (string \<times> 'f node) list \<Rightarrow> 'f estate \<Rightarrow> py_exn option \<times> 'f estate" where
  "init_variables L [] st = (None, st)"
| "init_variables L ((node_id, node) # rest) st =
     (if ntype node = ''variable'' then
        (case execute_node L node st of
           (Inl e, st1) \<Rightarrow> (Some e, st1)
         | (Inr res, st1) \<Rightarrow> init_variables L rest st1)
      else init_variables L rest st)"

text \<open>Lines 33-36: the first node of type \<^verbatim>\<open>api\<close>.\<close>

definition find_start :: "'f graph \<Rightarrow> 'f node option" where
  "find_start g = map_option snd (find (\<lambda>(node_id, node). ntype node = ''api'') (nodes g))"

text \<open>Lines 46-55: the request and its convenience aliases.\<close>

definition seed_context :: "'f pylib \<Rightarrow> (string \<times> 'f pyval) list \<Rightarrow> 'f pyctx \<Rightarrow> 'f pyctx" where
  "seed_context L input_data c =
     (let c1 = AList.update (PStr ''request'') (PDict input_data) c;
          c2 = (case map_of input_data ''body'' of
                  Some (PDict b) \<Rightarrow> AList.update (PStr ''body'') (PDict b) c1
                | _ \<Rightarrow> c1);
          c3 = (case map_of input_data ''query'' of
                  Some q \<Rightarrow> if truthy L q then AList.update (PStr ''query'') q c2 else c2
                | None \<Rightarrow> c2)
      in (case map_of input_data ''params'' of
            Some p \<Rightarrow> if truthy L p then AList.update (PStr ''params'') p c3 else c3
          | None \<Rightarrow> c3))"

text \<open>
  \<open>run\<close>, with the number of waves as the last component. \<open>Inl\<close> is an exception that
  propagates to the caller.
\<close>

definition run_counted ::
  "'f pylib \<Rightarrow> 'f graph \<Rightarrow> (string \<times> 'f pyval) list \<Rightarrow> 'f estate
     \<Rightarrow> (py_exn + 'f result) \<times> 'f estate \<times> nat" where
  "run_counted L g input_data st =
     (case init_variables L (nodes g) st of
        (Some e, st1) \<Rightarrow> (Inl e, st1, 0)
      | (None, st1) \<Rightarrow>
          (case find_start g of
             None \<Rightarrow> (Inr no_entry_result, st1, 0)
           | Some start_node \<Rightarrow>
               (case ndata start_node of
                  None \<Rightarrow> (Inl KeyError, st1, 0)
                | Some d \<Rightarrow>
                    (let st2 = log_append (''Started execution at ''
                                           @ py_str L (dget d ''label'' (PStr ''API Entry''))) st1;
                         st3 = st2\<lparr>ctx := seed_context L input_data (ctx st2)\<rparr>
                     in run_waves L g [nid start_node] 0 st3))))"

definition run ::
  "'f pylib \<Rightarrow> 'f graph \<Rightarrow> (string \<times> 'f pyval) list \<Rightarrow> 'f estate
     \<Rightarrow> (py_exn + 'f result) \<times> 'f estate" where
  "run L g input_data st = (case run_counted L g input_data st of (r, st1, n) \<Rightarrow> (r, st1))"

subsection \<open>The transport layer's call\<close>

text \<open>
  \<^verbatim>\<open>main.py\<close>, lines 49-50: every request builds its own executor and runs it once.
  The workflow definition is passed as a value; in Python every executor is built on the
  one module-level object, whose parts a run may hold by reference.
\<close>

definition handle_request ::
  "'f pylib \<Rightarrow> 'f workflow \<Rightarrow> (string \<times> 'f pyval) list \<Rightarrow> (py_exn + 'f result) \<times> 'f estate" where
  "handle_request L workflow_data input_data =
     (case WorkflowExecutor workflow_data of (g, st) \<Rightarrow> run L g input_data st)"

section \<open>A small instance of the library\<close>

text \<open>
  The examples below run the model on an instance of \<open>pylib\<close> in which a float is an
  exact rational. It renders and parses only simple values: \<open>lib_loads\<close> decodes the
  JSON literals and integers, \<open>lib_eval\<close> knows two expressions; any other text is an
  error in this instance. The theorems hold for every library.
\<close>

fun digits :: "nat \<Rightarrow> nat \<Rightarrow> string" where
  "digits 0 n = []"
| "digits (Suc k) n =
     (if n < 10 then [char_of (48 + n)] else digits k (n div 10) @ [char_of (48 + n mod 10)])"

definition show_nat :: "nat \<Rightarrow> string" where
  "show_nat n = digits (Suc n) n"

definition show_int :: "int \<Rightarrow> string" where
  "show_int i = (if i < 0 then ''-'' @ show_nat (nat (- i)) else show_nat (nat i))"

definition trunc :: "rat \<Rightarrow> int" where
  "trunc x = (if 0 \<le> x then \<lfloor>x\<rfloor> else \<lceil>x\<rceil>)"

fun frac_digits :: "nat \<Rightarrow> rat \<Rightarrow> string" where
  "frac_digits 0 x = []"
| "frac_digits (Suc k) x =
     (if x = 0 then []
      else show_nat (nat \<lfloor>10 * x\<rfloor>) @ frac_digits k (10 * x - of_int \<lfloor>10 * x\<rfloor>))"

definition show_rat :: "rat \<Rightarrow> string" where
  "show_rat x =
     (if x < 0 then ''-'' else []) @ show_int (trunc \<bar>x\<bar>) @ ''.''
     @ (if \<bar>x\<bar> = of_int (trunc \<bar>x\<bar>) then ''0''
        else frac_digits 17 (\<bar>x\<bar> - of_int (trunc \<bar>x\<bar>)))"

primrec lib_repr :: "rat pyval \<Rightarrow> string" where
  "lib_repr PNone = ''None''"
| "lib_repr (PBool b) = (if b then ''True'' else ''False'')"
| "lib_repr (PInt i) = show_int i"
| "lib_repr (PFloat x) = show_rat x"
| "lib_repr (PStr s) = [CHR 0x27] @ s @ [CHR 0x27]"
| "lib_repr (PList xs) = ''['' @ join_strs '', '' (map lib_repr xs) @ '']''"
| "lib_repr (PDict d) =
     ''{'' @ join_strs '', '' (map (\<lambda>(k, r). [CHR 0x27] @ k @ [CHR 0x27] @ '': '' @ r)
                                 (map (map_prod id lib_repr) d)) @ ''}''"

primrec lib_dumps :: "rat pyval \<Rightarrow> string" where
  "lib_dumps PNone = ''null''"
| "lib_dumps (PBool b) = (if b then ''true'' else ''false'')"
| "lib_dumps (PInt i) = show_int i"
| "lib_dumps (PFloat x) = show_rat x"
| "lib_dumps (PStr s) = [CHR 0x22] @ s @ [CHR 0x22]"
| "lib_dumps (PList xs) = ''['' @ join_strs '', '' (map lib_dumps xs) @ '']''"
| "lib_dumps (PDict d) =
     ''{'' @ join_strs '', '' (map (\<lambda>(k, r). [CHR 0x22] @ k @ [CHR 0x22] @ '': '' @ r)
                                 (map (map_prod id lib_dumps) d)) @ ''}''"

definition is_digit :: "char \<Rightarrow> bool" where
  "is_digit c = ((48::nat) \<le> of_char c \<and> of_char c \<le> (57::nat))"

definition read_nat :: "string \<Rightarrow> nat" where
  "read_nat s = foldl (\<lambda>n c. 10 * n + (of_char c - 48)) 0 s"

definition read_int :: "string \<Rightarrow> int option" where
  "read_int s =
     (let t = (if s \<noteq> [] \<and> hd s = CHR ''-'' then tl s else s)
      in if t \<noteq> [] \<and> list_all is_digit t then
           Some (if s \<noteq> [] \<and> hd s = CHR ''-'' then - int (read_nat t) else int (read_nat t))
         else None)"

definition lib_loads :: "string \<Rightarrow> rat pyval option" where
  "lib_loads s =
     (if s = ''null'' then Some PNone
      else if s = ''true'' then Some (PBool True)
      else if s = ''false'' then Some (PBool False)
      else if s = ''{}'' then Some (PDict [])
      else if s = ''[]'' then Some (PList [])
      else map_option PInt (read_int s))"

definition read_float :: "string \<Rightarrow> rat option" where
  "read_float s =
     (let neg = (s \<noteq> [] \<and> hd s = CHR ''-'');
          t = (if neg then tl s else s);
          ip = takeWhile is_digit t;
          r = dropWhile is_digit t;
          fp = (if r \<noteq> [] \<and> hd r = CHR ''.'' then tl r else [])
      in if ip \<noteq> [] \<and> (r = [] \<or> (hd r = CHR ''.'' \<and> list_all is_digit fp)) then
           Some ((if neg then - 1 else 1)
                 * (of_nat (read_nat ip) + of_nat (read_nat fp) / 10 ^ length fp))
         else None)"

definition lib_eval :: "string \<Rightarrow> rat pyctx \<Rightarrow> (py_exn + bool) \<times> rat pyctx" where
  "lib_eval s c =
     (if s = ''1 == 1'' then (Inr True, c)
      else if s = ''x > 10'' \<and> map_of c (PStr ''x'') = None then (Inl (OtherError ''NameError''), c)
      else (Inl (OtherError ''unsupported''), c))"

definition lib_exn_msg :: "py_exn \<Rightarrow> string" where
  "lib_exn_msg e =
     (case e of
        KeyError \<Rightarrow> ''KeyError'' | TypeError \<Rightarrow> ''TypeError''
      | AttributeError \<Rightarrow> ''AttributeError'' | ValueError \<Rightarrow> ''ValueError''
      | IndexError \<Rightarrow> ''IndexError'' | OverflowError \<Rightarrow> ''OverflowError''
      | ZeroDivisionError \<Rightarrow> ''ZeroDivisionError'' | JSONDecodeError \<Rightarrow> ''JSONDecodeError''
      | OtherError m \<Rightarrow> m)"

definition lib_in :: "rat pyval \<Rightarrow> rat pyval \<Rightarrow> py_exn + bool" where
  "lib_in x c =
     (case c of
        PList xs \<Rightarrow> Inr (x \<in> set xs)
      | PDict d \<Rightarrow> (if hashable x then Inr False else Inl TypeError)
      | PStr s \<Rightarrow> (case x of PStr p \<Rightarrow> Inr (contains p s) | _ \<Rightarrow> Inl TypeError)
      | _ \<Rightarrow> Inl TypeError)"

definition lib_getitem :: "rat pyval \<Rightarrow> rat pyval \<Rightarrow> py_exn + rat pyval" where
  "lib_getitem c k =
     (case c of
        PList xs \<Rightarrow> list_index xs k
      | PDict d \<Rightarrow> (if hashable k then Inl KeyError else Inl TypeError)
      | _ \<Rightarrow> Inl TypeError)"

definition lib :: "rat pylib" where
  "lib =
     \<lparr>repr_val = lib_repr,
      json_dumps = lib_dumps,
      json_loads = lib_loads,
      float_of_str = read_float,
      float_of_int = (\<lambda>i. Some (of_int i)),
      f_add = (\<lambda>x y. x + y),
      f_sub = (\<lambda>x y. x - y),
      f_mul = (\<lambda>x y. x * y),
      f_div = (\<lambda>x y. x / y),
      f_mod = (\<lambda>x y. if y = 0 then None else Some (x - y * of_int \<lfloor>x / y\<rfloor>)),
      f_is_zero = (\<lambda>x. x = 0),
      f_is_integer = (\<lambda>x. x = of_int \<lfloor>x\<rfloor>),
      f_to_int = (\<lambda>x. Inr (trunc x)),
      f_eq_int = (\<lambda>x i. x = of_int i),
      f_less = (\<lambda>x y. x < y),
      f_less_int = (\<lambda>x i. x < of_int i),
      eval_cond = lib_eval,
      exn_msg = lib_exn_msg,
      set_list = remdups,
      op_in = lib_in,
      op_getitem = lib_getitem\<rparr>"

section \<open>Example nodes and workflows\<close>

definition unknown_op_node :: "rat node" where
  "unknown_op_node =
     \<lparr>nid = ''m1'', ntype = ''math'',
      ndata = Some [(''valA'', PStr ''7''), (''valB'', PStr ''2.5''), (''op'', PStr ''^''),
                    (''resultVar'', PStr ''r'')]\<rparr>"

definition sum_node :: "rat node" where
  "sum_node =
     \<lparr>nid = ''m2'', ntype = ''math'',
      ndata = Some [(''valA'', PStr ''3''), (''valB'', PStr ''4''), (''op'', PStr ''+'')]\<rparr>"

definition halves_node :: "rat node" where
  "halves_node =
     \<lparr>nid = ''m3'', ntype = ''math'',
      ndata = Some [(''valA'', PStr ''1.5''), (''valB'', PStr ''1.5''), (''op'', PStr ''+'')]\<rparr>"

definition number_field_node :: "'f node" where
  "number_field_node =
     \<lparr>nid = ''i1'', ntype = ''interface'',
      ndata = Some [(''fields'',
                     PList [PDict [(''name'', PStr ''age''), (''required'', PBool True),
                                   (''type'', PStr ''number'')]])]\<rparr>"

definition bool_body_state :: "'f estate" where
  "bool_body_state =
     \<lparr>ctx = [(PStr ''body'', PDict [(''age'', PBool True)])], execution_log = []\<rparr>"

definition strict_eq_node :: "'f node" where
  "strict_eq_node =
     \<lparr>nid = ''l1'', ntype = ''logic'', ndata = Some [(''condition'', PStr ''1 === 1'')]\<rparr>"

definition unbound_name_node :: "'f node" where
  "unbound_name_node =
     \<lparr>nid = ''l2'', ntype = ''logic'', ndata = Some [(''condition'', PStr ''x > 10'')]\<rparr>"

text \<open>
  Two readings of the reserved \<^verbatim>\<open>_loop_states\<close> entry, as lines 392-395 read it:
  the iteration index stored for a loop node, and whether nothing is stored for it yet.
\<close>

definition loop_index :: "'f pyctx \<Rightarrow> string \<Rightarrow> 'f pyval option" where
  "loop_index c node_id =
     (case map_of c (PStr ''_loop_states'') of
        Some (PDict loop_states) \<Rightarrow>
          (case map_of loop_states node_id of
             Some (PDict state) \<Rightarrow> map_of state ''index''
           | _ \<Rightarrow> None)
      | _ \<Rightarrow> None)"

definition fresh_loop :: "'f pyctx \<Rightarrow> string \<Rightarrow> bool" where
  "fresh_loop c node_id =
     (case map_of c (PStr ''_loop_states'') of
        None \<Rightarrow> True
      | Some (PDict loop_states) \<Rightarrow> map_of loop_states node_id = None
      | _ \<Rightarrow> False)"

definition counting_loop_node :: "'f node" where
  "counting_loop_node =
     \<lparr>nid = ''loop1'', ntype = ''loop'',
      ndata = Some [(''collection'', PStr ''items''), (''variable'', PStr ''item'')]\<rparr>"

definition items_state :: "'f estate" where
  "items_state =
     \<lparr>ctx = [(PStr ''items'', PList [PInt 1, PInt 2, PInt 3])], execution_log = []\<rparr>"

definition reserved_var_node :: "'f node" where
  "reserved_var_node =
     \<lparr>nid = ''loop2'', ntype = ''loop'',
      ndata = Some [(''collection'', PList [PInt 1, PInt 2, PInt 3]),
                    (''variable'', PStr ''_loop_states'')]\<rparr>"

text \<open>Every edge target names a node of the workflow.\<close>

definition targets_exist :: "'f workflow \<Rightarrow> bool" where
  "targets_exist workflow_data =
     list_all (\<lambda>e. target e \<in> set (map nid (wf_nodes workflow_data))) (wf_edges workflow_data)"

text \<open>The workflow embedded in \<^verbatim>\<open>main.py\<close> (lines 10-29).\<close>

definition embedded_workflow :: "'f workflow" where
  "embedded_workflow =
     \<lparr>wf_nodes = [\<lparr>nid = ''api-1768636097809'', ntype = ''api'',
                    ndata = Some [(''label'', PStr ''New api'')]\<rparr>],
      wf_edges = []\<rparr>"

definition dangling_workflow :: "'f workflow" where
  "dangling_workflow =
     \<lparr>wf_nodes = [\<lparr>nid = ''a'', ntype = ''api'', ndata = Some [(''label'', PStr ''entry'')]\<rparr>],
      wf_edges = [\<lparr>source = ''a'', target = ''ghost'', sourceHandle = None\<rparr>]\<rparr>"

definition raising_workflow :: "'f workflow" where
  "raising_workflow =
     \<lparr>wf_nodes = [\<lparr>nid = ''a'', ntype = ''api'', ndata = Some [(''label'', PStr ''entry'')]\<rparr>,
                  \<lparr>nid = ''l'', ntype = ''logic'', ndata = Some [(''condition'', PInt 5)]\<rparr>],
      wf_edges = [\<lparr>source = ''a'', target = ''l'', sourceHandle = None\<rparr>]\<rparr>"

definition no_api_workflow :: "'f workflow" where
  "no_api_workflow =
     \<lparr>wf_nodes = [\<lparr>nid = ''v1'', ntype = ''variable'',
                    ndata = Some [(''name'', PStr ''greeting''), (''value'', PStr ''hello'')]\<rparr>,
                  \<lparr>nid = ''f1'', ntype = ''function'', ndata = Some []\<rparr>],
      wf_edges = []\<rparr>"

definition respond_workflow :: "'f workflow" where
  "respond_workflow =
     \<lparr>wf_nodes = [\<lparr>nid = ''a'', ntype = ''api'', ndata = Some [(''label'', PStr ''entry'')]\<rparr>,
                  \<lparr>nid = ''r'', ntype = ''response'',
                    ndata = Some [(''responseType'', PStr ''variable''),
                                  (''body'', PStr ''request'')]\<rparr>],
      wf_edges = [\<lparr>source = ''a'', target = ''r'', sourceHandle = None\<rparr>]\<rparr>"

text \<open>
  A workflow whose variable node stores an object (not text) under the reserved key; the
  parameter is what that object of the definition holds.
\<close>

definition leak_workflow :: "(string \<times> rat pyval) list \<Rightarrow> rat workflow" where
  "leak_workflow held =
     \<lparr>wf_nodes = [\<lparr>nid = ''a'', ntype = ''api'', ndata = Some [(''label'', PStr ''entry'')]\<rparr>,
                  \<lparr>nid = ''v'', ntype = ''variable'',
                    ndata = Some [(''name'', PStr ''_loop_states''), (''type'', PStr ''json''),
                                  (''value'', PDict held)]\<rparr>,
                  \<lparr>nid = ''l'', ntype = ''loop'',
                    ndata = Some [(''collection'', PList [PInt 1, PInt 2, PInt 3]),
                                  (''variable'', PStr ''item'')]\<rparr>,
                  \<lparr>nid = ''r'', ntype = ''response'',
                    ndata = Some [(''responseType'', PStr ''variable''),
                                  (''body'', PStr ''item'')]\<rparr>],
      wf_edges = [\<lparr>source = ''a'', target = ''l'', sourceHandle = None\<rparr>,
                  \<lparr>source = ''l'', target = ''r'', sourceHandle = Some ''do''\<rparr>]\<rparr>"

subsection \<open>The waves of a traversal\<close>

text \<open>The state in which the traversal starts (lines 42-55).\<close>

definition seeded_state ::
  "'f pylib \<Rightarrow> (string \<times> 'f pyval) list \<Rightarrow> (string \<times> 'f pyval) list \<Rightarrow> 'f estate \<Rightarrow> 'f estate" where
  "seeded_state L d input_data st =
     (let st2 = log_append (''Started execution at ''
                            @ py_str L (dget d ''label'' (PStr ''API Entry''))) st
      in st2\<lparr>ctx := seed_context L input_data (ctx st2)\<rparr>)"

text \<open>
  The wave that the loop of lines 66-134 processes after \<open>i\<close> earlier waves have run
  through, with the state at that moment.
\<close>

fun wave_at ::
  "'f pylib \<Rightarrow> 'f graph \<Rightarrow> nat \<Rightarrow> string list \<Rightarrow> 'f estate \<Rightarrow> (string list \<times> 'f estate) option" where
  "wave_at L g 0 cur st = Some (cur, st)"
| "wave_at L g (Suc i) cur st =
     (if cur = [] then None
      else (case process_layer L g cur [] st of
              (Continue next_layer, st1) \<Rightarrow> wave_at L g i (set_list L next_layer) st1
            | _ \<Rightarrow> None))"

section \<open>Verified properties\<close>

subsection \<open>The Value Resolver\<close>

lemma endswith_single: "s \<noteq> [] \<Longrightarrow> endswith s [c] \<longleftrightarrow> last s = c"
proof -
  assume ne: "s \<noteq> []"
  then have "s = butlast s @ [last s]" by simp
  then obtain b where sb: "s = b @ [last s]" by metis
  have "length s - 1 = length b" using sb by (metis length_append_singleton diff_Suc_1)
  then have "drop (length s - 1) s = [last s]" using sb by (metis append_eq_conv_conj)
  then show ?thesis using ne by (cases s) (auto simp: endswith_def)
qed

lemma is_exact_ref_iff:
  "is_exact_ref s \<longleftrightarrow>
     (s \<noteq> [] \<and> hd s = CHR ''{'' \<and> last s = CHR ''}'' \<and> CHR ''{'' \<notin> set (tl s))"
proof (cases s)
  case Nil
  then show ?thesis by (simp add: is_exact_ref_def startswith_def)
next
  case (Cons a t)
  have c: "count_list t (CHR ''{'') = 0 \<longleftrightarrow> CHR ''{'' \<notin> set t"
    by (simp add: count_list_0_iff)
  have e: "endswith s ''}'' \<longleftrightarrow> last s = CHR ''}''"
    using Cons endswith_single [of s] by simp
  show ?thesis
    unfolding is_exact_ref_def e using Cons c by (auto simp: startswith_def)
qed

text \<open>
  C6. A string template that begins with \<open>{\<close>, ends with \<open>}\<close> and contains no other
  \<open>{\<close> is resolved by a lookup of the text between the braces as an exact Context key:
  when the key exists the stored value is returned as it is (whatever its type, not
  rendered as text), and when it is absent the template string itself is returned.
\<close>

theorem resolve_val_exact_reference:
  assumes "s \<noteq> []" and "hd s = CHR ''{''" and "last s = CHR ''}''"
    and "CHR ''{'' \<notin> set (tl s)"
  shows "resolve_val L c (PStr s) =
           (case map_of c (PStr (butlast (tl s))) of Some v \<Rightarrow> v | None \<Rightarrow> PStr s)"
proof -
  have "is_exact_ref s" using assms by (simp add: is_exact_ref_iff)
  then show ?thesis by (simp add: resolve_val_def strip_ends_def)
qed

theorem resolve_val_exact_reference_witness:
  "resolve_val lib [(PStr ''x'', PList [PInt 1, PBool True])] (PStr ''{x}'')
     = PList [PInt 1, PBool True]
   \<and> resolve_val lib [(PStr ''x'', PList [PInt 1, PBool True])] (PStr ''{y}'') = PStr ''{y}''"
  using resolve_val_exact_reference [of "''{x}''" lib "[(PStr ''x'', PList [PInt 1, PBool True])]"]
        resolve_val_exact_reference [of "''{y}''" lib "[(PStr ''x'', PList [PInt 1, PBool True])]"]
  by simp

subsection \<open>The math node\<close>

lemma math_cast_zero: "math_cast L a b (PInt 0) = Inr (PInt 0)"
  by (simp add: math_cast_def py_int_def num_eq_int_def)

lemma math_cast_whole:
  assumes "f_is_integer L a" and "f_is_integer L b" and "py_int L res = Inr i"
  shows "math_cast L a b res = Inr (PInt i)"
  using assms by (simp add: math_cast_def py_int_def num_eq_int_def)

lemma math_cast_fractional:
  "\<not> (f_is_integer L a \<and> f_is_integer L b) \<Longrightarrow> math_cast L a b res = Inr res"
  by (auto simp add: math_cast_def)

lemma math_apply_other:
  assumes "op \<notin> {PStr ''+'', PStr ''-'', PStr ''*'', PStr ''/'', PStr ''%''}"
  shows "math_apply L op a b = Inr (PInt 0)"
  using assms by (simp add: math_apply_def)

lemma exec_math_stored:
  assumes "py_float L (resolve_val L (ctx st) (dget d ''valA'' PNone)) = Inr a"
    and "py_float L (resolve_val L (ctx st) (dget d ''valB'' PNone)) = Inr b"
    and "math_apply L (dget d ''op'' (PStr ''+'')) a b = Inr res0"
    and "math_cast L a b res0 = Inr res"
    and "hashable (dget d ''resultVar'' (PStr ''result''))"
  shows "exec_math L d st =
           (Inr None,
            log_append (''Math: '' @ py_str L (PFloat a) @ '' '' @ py_str L (dget d ''op'' (PStr ''+''))
                        @ '' '' @ py_str L (PFloat b) @ '' = '' @ py_str L res)
              (st\<lparr>ctx := AList.update (dget d ''resultVar'' (PStr ''result'')) res (ctx st)\<rparr>))"
  using assms by (simp add: exec_math_def math_try_def ctx_set_def Let_def)

lemma read_float_7: "read_float ''7'' = Some 7"
  by (simp add: read_float_def is_digit_def read_nat_def)

lemma read_float_2_5: "read_float ''2.5'' = Some (5 / 2)"
  by (simp add: read_float_def is_digit_def read_nat_def)

text \<open>
  C10. A math node whose two resolved operands both coerce to numbers and whose \<open>op\<close> is
  none of \<open>+ - * / %\<close> sets \<open>resultVar\<close> (a hashable name) to the integer 0: the node
  raises nothing, and the one log entry it appends is the ordinary \<open>Math:\<close> line, not
  an error line.
\<close>

theorem math_unknown_op_stores_zero:
  assumes "ntype node = ''math''"
    and "py_float L (resolve_val L (ctx st) (dget (data_of node) ''valA'' PNone)) = Inr a"
    and "py_float L (resolve_val L (ctx st) (dget (data_of node) ''valB'' PNone)) = Inr b"
    and "dget (data_of node) ''op'' (PStr ''+'')
           \<notin> {PStr ''+'', PStr ''-'', PStr ''*'', PStr ''/'', PStr ''%''}"
    and "hashable (dget (data_of node) ''resultVar'' (PStr ''result''))"
  shows "fst (execute_node L node st) = Inr None
       \<and> map_of (ctx (snd (execute_node L node st)))
            (dget (data_of node) ''resultVar'' (PStr ''result'')) = Some (PInt 0)
       \<and> execution_log (snd (execute_node L node st)) =
            execution_log st @
              [''Math: '' @ py_str L (PFloat a) @ '' ''
               @ py_str L (dget (data_of node) ''op'' (PStr ''+'')) @ '' ''
               @ py_str L (PFloat b) @ '' = '' @ py_str L (PInt 0)]"
proof -
  have e: "execute_node L node st = exec_math L (data_of node) st"
    using assms(1) by (simp add: execute_node_def)
  show ?thesis
    unfolding e
    by (simp add: exec_math_stored [OF assms(2) assms(3) math_apply_other [OF assms(4)]
                    math_cast_zero assms(5)] log_append_def update_conv')
qed

theorem math_unknown_op_stores_zero_witness:
  "fst (execute_node lib unknown_op_node init_state) = Inr None
   \<and> map_of (ctx (snd (execute_node lib unknown_op_node init_state))) (PStr ''r'') = Some (PInt 0)"
  using math_unknown_op_stores_zero [of unknown_op_node lib init_state 7 "5 / 2"]
  by (simp add: unknown_op_node_def data_of_def dget_def init_state_def resolve_val_def
        is_exact_ref_def startswith_def py_float_def lib_def read_float_7 read_float_2_5
        hashable_def)

lemma read_float_3: "read_float ''3'' = Some 3"
  by (simp add: read_float_def is_digit_def read_nat_def)

lemma read_float_4: "read_float ''4'' = Some 4"
  by (simp add: read_float_def is_digit_def read_nat_def)

lemma read_float_1_5: "read_float ''1.5'' = Some (3 / 2)"
  by (simp add: read_float_def is_digit_def read_nat_def)

lemma floor_three_halves: "\<lfloor>3 / 2 :: rat\<rfloor> = 1"
  by (simp add: floor_eq_iff)

text \<open>
  C8 (amended). In a math node whose two resolved operands both coerce to numbers, a
  result that is a whole number is stored under \<open>resultVar\<close> as an integer when both
  operands are whole (3 and 4 with \<open>+\<close> store the integer 7). When an operand is
  fractional the operator's result is stored as it is, a float even when its value is
  whole.
\<close>

theorem math_result_cast:
  assumes "ntype node = ''math''"
    and "py_float L (resolve_val L (ctx st) (dget (data_of node) ''valA'' PNone)) = Inr a"
    and "py_float L (resolve_val L (ctx st) (dget (data_of node) ''valB'' PNone)) = Inr b"
    and "math_apply L (dget (data_of node) ''op'' (PStr ''+'')) a b = Inr res0"
    and "hashable (dget (data_of node) ''resultVar'' (PStr ''result''))"
  shows "(f_is_integer L a \<and> f_is_integer L b \<and> py_int L res0 = Inr i
            \<and> num_eq_int L res0 i \<longrightarrow>
            map_of (ctx (snd (execute_node L node st)))
              (dget (data_of node) ''resultVar'' (PStr ''result'')) = Some (PInt i))
       \<and> (\<not> (f_is_integer L a \<and> f_is_integer L b) \<longrightarrow>
            map_of (ctx (snd (execute_node L node st)))
              (dget (data_of node) ''resultVar'' (PStr ''result'')) = Some res0)"
proof -
  have e: "execute_node L node st = exec_math L (data_of node) st"
    using assms(1) by (simp add: execute_node_def)
  have w: "map_of (ctx (snd (exec_math L (data_of node) st)))
             (dget (data_of node) ''resultVar'' (PStr ''result'')) = Some (PInt i)"
    if "f_is_integer L a" "f_is_integer L b" "py_int L res0 = Inr i"
    by (simp add: exec_math_stored [OF assms(2) assms(3) assms(4) math_cast_whole [OF that]
                    assms(5)] log_append_def update_conv')
  have f: "map_of (ctx (snd (exec_math L (data_of node) st)))
             (dget (data_of node) ''resultVar'' (PStr ''result'')) = Some res0"
    if "\<not> (f_is_integer L a \<and> f_is_integer L b)"
    by (simp add: exec_math_stored [OF assms(2) assms(3) assms(4) math_cast_fractional [OF that]
                    assms(5)] log_append_def update_conv')
  show ?thesis unfolding e using w f by blast
qed

theorem math_result_cast_witness:
  "map_of (ctx (snd (execute_node lib sum_node init_state))) (PStr ''result'') = Some (PInt 7)
   \<and> map_of (ctx (snd (execute_node lib halves_node init_state))) (PStr ''result'')
       = Some (PFloat 3)"
  using math_result_cast [of sum_node lib init_state 3 4 "PFloat 7" 7]
        math_result_cast [of halves_node lib init_state "3 / 2" "3 / 2" "PFloat 3" 0]
  by (simp add: sum_node_def halves_node_def data_of_def dget_def init_state_def resolve_val_def
        is_exact_ref_def startswith_def py_float_def lib_def read_float_3 read_float_4
        read_float_1_5 hashable_def math_apply_def py_int_def trunc_def floor_three_halves
        num_eq_int_def)

text \<open>
  The operands 1.5 and 1.5 with \<open>+\<close>: the result 3.0 is whole, and what is stored is the
  float, not an integer.
\<close>

theorem math_whole_result_counterexample:
  "py_float lib (resolve_val lib (ctx init_state) (dget (data_of halves_node) ''valA'' PNone))
     = Inr (3 / 2)
   \<and> py_float lib (resolve_val lib (ctx init_state) (dget (data_of halves_node) ''valB'' PNone))
     = Inr (3 / 2)
   \<and> math_apply lib (dget (data_of halves_node) ''op'' (PStr ''+'')) (3 / 2) (3 / 2)
     = Inr (PFloat 3)
   \<and> f_is_integer lib 3
   \<and> map_of (ctx (snd (execute_node lib halves_node init_state))) (PStr ''result'')
     = Some (PFloat 3)"
  by (simp add: halves_node_def data_of_def dget_def init_state_def resolve_val_def
        is_exact_ref_def startswith_def py_float_def lib_def read_float_1_5 hashable_def
        math_apply_def execute_node_def exec_math_def math_try_def math_cast_def ctx_set_def
        log_append_def floor_three_halves)

subsection \<open>The interface node\<close>

text \<open>
  C5. The claim is that a present field declared \<open>number\<close> whose value is a boolean is
  collected into the invalid-type list. The code does not do so: with the field
  \<open>age\<close> declared \<open>number\<close> and the body \<open>{"age": true}\<close> the interface node
  collects nothing, logs that the validation passed and yields no response, because
  \<^verbatim>\<open>isinstance(True, (int, float))\<close> holds in Python.
\<close>

theorem interface_accepts_bool_as_number:
  "execute_node L number_field_node bool_body_state =
     (Inr None, log_append ''Interface Validation Passed'' bool_body_state)"
  by (simp add: execute_node_def number_field_node_def bool_body_state_def data_of_def
        exec_interface_def dget_def py_iter_def check_field_def truthy_def py_in_def
        check_present_def py_getitem_def type_check_def is_int_or_float_def is_str_def)

subsection \<open>The logic node\<close>

lemma normalize_strict_eq: "replace ''!=='' ''!='' (replace ''==='' ''=='' ''1 === 1'') = ''1 == 1''"
  by (simp add: startswith_def)

lemma normalize_unbound: "replace ''!=='' ''!='' (replace ''==='' ''=='' ''x > 10'') = ''x > 10''"
  by (simp add: startswith_def)

lemma exec_logic_cases:
  assumes "dget d ''condition'' (PStr ''False'') = PStr raw"
  shows "exec_logic L d st =
           (case eval_cond L (replace ''!=='' ''!='' (replace ''==='' ''=='' raw)) (ctx st) of
              (Inr b, c1) \<Rightarrow>
                (Inr (Some (Logic b)),
                 log_append (''Logic: '' @ [CHR 0x27] @ raw @ [CHR 0x27] @ '' -> '' @ bool_str b)
                   (st\<lparr>ctx := c1\<rparr>))
            | (Inl e, c1) \<Rightarrow>
                (Inr (Some (Logic False)),
                 log_append (''Logic Error: '' @ exn_msg L e) (st\<lparr>ctx := c1\<rparr>)))"
  using assms by (simp add: exec_logic_def Let_def)

text \<open>
  C7. A logic node with a condition string never raises: whatever \<^verbatim>\<open>eval\<close> does with
  the normalised expression, the node yields a \<open>logic\<close> outcome. When the evaluation
  raises, the outcome is \<open>logic(false)\<close> and one \<open>Logic Error\<close> entry is appended to
  the log. In particular \<open>x > 10\<close> is handed to \<^verbatim>\<open>eval\<close> unchanged and yields
  \<open>logic(false)\<close> when the evaluation fails (as it does for an unknown name), and
  \<open>1 === 1\<close> is evaluated as \<open>1 == 1\<close> and yields \<open>logic(true)\<close> when that is true.
\<close>

theorem logic_errors_caught:
  assumes "ntype node = ''logic''"
    and "dget (data_of node) ''condition'' (PStr ''False'') = PStr raw"
  shows "(\<exists>b. fst (execute_node L node st) = Inr (Some (Logic b)))
       \<and> (\<forall>e. fst (eval_cond L (replace ''!=='' ''!='' (replace ''==='' ''=='' raw)) (ctx st)) = Inl e
              \<longrightarrow> fst (execute_node L node st) = Inr (Some (Logic False))
                \<and> execution_log (snd (execute_node L node st)) =
                    execution_log st @ [''Logic Error: '' @ exn_msg L e])
       \<and> (raw = ''x > 10'' \<and> (\<exists>e. fst (eval_cond L ''x > 10'' (ctx st)) = Inl e)
              \<longrightarrow> fst (execute_node L node st) = Inr (Some (Logic False)))
       \<and> (raw = ''1 === 1'' \<and> fst (eval_cond L ''1 == 1'' (ctx st)) = Inr True
              \<longrightarrow> fst (execute_node L node st) = Inr (Some (Logic True)))"
proof -
  have e: "execute_node L node st = exec_logic L (data_of node) st"
    using assms(1) by (simp add: execute_node_def)
  note c = exec_logic_cases [OF assms(2), of L st]
  obtain r c1 where ev:
    "eval_cond L (replace ''!=='' ''!='' (replace ''==='' ''=='' raw)) (ctx st) = (r, c1)"
    by (cases "eval_cond L (replace ''!=='' ''!='' (replace ''==='' ''=='' raw)) (ctx st)")
  have 1: "\<exists>b. fst (exec_logic L (data_of node) st) = Inr (Some (Logic b))"
    unfolding c ev by (cases r) auto
  have 2: "fst (exec_logic L (data_of node) st) = Inr (Some (Logic False))
           \<and> execution_log (snd (exec_logic L (data_of node) st)) =
               execution_log st @ [''Logic Error: '' @ exn_msg L x]"
    if "r = Inl x" for x
    unfolding c ev using that by (simp add: log_append_def)
  have 3: "fst (exec_logic L (data_of node) st) = Inr (Some (Logic False))"
    if "raw = ''x > 10''" "fst (eval_cond L ''x > 10'' (ctx st)) = Inl x" for x
  proof -
    have "eval_cond L ''x > 10'' (ctx st) = (r, c1)"
      using ev unfolding that(1) normalize_unbound .
    then have "r = Inl x" using that(2) by simp
    then show ?thesis using 2 by blast
  qed
  have 4: "fst (exec_logic L (data_of node) st) = Inr (Some (Logic True))"
    if "raw = ''1 === 1''" "fst (eval_cond L ''1 == 1'' (ctx st)) = Inr True"
  proof -
    have "eval_cond L ''1 == 1'' (ctx st) = (r, c1)"
      using ev unfolding that(1) normalize_strict_eq .
    then have "r = Inr True" using that(2) by simp
    then show ?thesis unfolding c ev by simp
  qed
  show ?thesis unfolding e using 1 2 3 4 ev by auto
qed

theorem logic_errors_caught_witness:
  "fst (execute_node lib strict_eq_node init_state) = Inr (Some (Logic True))
   \<and> fst (execute_node lib unbound_name_node init_state) = Inr (Some (Logic False))
   \<and> execution_log (snd (execute_node lib unbound_name_node init_state))
       = [''Logic Error: NameError'']"
  using logic_errors_caught [of strict_eq_node "''1 === 1''" lib init_state]
        logic_errors_caught [of unbound_name_node "''x > 10''" lib init_state]
  by (simp add: strict_eq_node_def unbound_name_node_def data_of_def dget_def init_state_def
        lib_def lib_eval_def lib_exn_msg_def startswith_def)

subsection \<open>The loop node\<close>

lemma loop_indexD:
  assumes "loop_index c n = Some idx"
  obtains ls s where "map_of c (PStr ''_loop_states'') = Some (PDict ls)"
    "map_of ls n = Some (PDict s)" "map_of s ''index'' = Some idx"
  using assms by (auto simp: loop_index_def split: option.splits pyval.splits)

lemma exec_loop_known:
  assumes "loop_collection L (ctx st) (dget d ''collection'' (PStr [])) = PList xs"
    and "map_of (ctx st) (PStr ''_loop_states'') = Some (PDict ls)"
    and "map_of ls n = Some (PDict s)" and "map_of s ''index'' = Some idx"
  shows "exec_loop L n d st = loop_step L n (dget d ''variable'' (PStr ''item'')) xs ls s idx st"
  using assms by (simp add: exec_loop_def Let_def)

lemma exec_loop_fresh:
  assumes "loop_collection L (ctx st) (dget d ''collection'' (PStr [])) = PList xs"
    and "fresh_loop (ctx st) n"
  shows "\<exists>ls. exec_loop L n d st =
           loop_step L n (dget d ''variable'' (PStr ''item'')) xs ls [(''index'', PInt 0)] (PInt 0)
             (st\<lparr>ctx := AList.update (PStr ''_loop_states'') (PDict ls) (ctx st)\<rparr>)
           \<and> map_of ls n = None"
proof (cases "map_of (ctx st) (PStr ''_loop_states'')")
  case None
  then show ?thesis using assms(1)
    by (intro exI [of _ "[]"]) (simp add: exec_loop_def Let_def update_conv')
next
  case (Some v)
  then obtain ls where v: "v = PDict ls" and n: "map_of ls n = None"
    using assms(2) by (auto simp: fresh_loop_def split: pyval.splits)
  have same: "AList.update (PStr ''_loop_states'') (PDict ls) (ctx st) = ctx st"
    using Some v by (simp add: update_triv)
  show ?thesis using assms(1) Some v n
    by (intro exI [of _ ls]) (simp add: exec_loop_def Let_def same)
qed


lemma loop_step_do:
  assumes "k < length xs" and "v \<noteq> []" and "v \<noteq> ''_loop_states''"
  shows "fst (loop_step L n (PStr v) xs ls s (PInt (int k)) st) = Inr (Some (Loop ''do''))"
    and "map_of (ctx (snd (loop_step L n (PStr v) xs ls s (PInt (int k)) st))) (PStr v)
           = Some (xs ! k)"
    and "loop_index (ctx (snd (loop_step L n (PStr v) xs ls s (PInt (int k)) st))) n
           = Some (PInt (int k + 1))"
  using assms
  by (simp_all add: loop_step_def idx_less_def list_index_def int_index_def truthy_def
        ctx_set_def hashable_def store_state_def log_append_def idx_succ_def loop_index_def
        update_conv')

lemma loop_step_done:
  assumes "\<not> k < length xs"
  shows "fst (loop_step L n item_var xs ls s (PInt (int k)) st) = Inr (Some (Loop ''done''))"
    and "loop_index (ctx (snd (loop_step L n item_var xs ls s (PInt (int k)) st))) n
           = Some (PInt 0)"
  using assms
  by (simp_all add: loop_step_def idx_less_def store_state_def log_append_def loop_index_def
        update_conv')


lemma exec_loop_do:
  assumes c: "loop_collection L (ctx st) (dget d ''collection'' (PStr [])) = PList xs"
    and v: "dget d ''variable'' (PStr ''item'') = PStr v" "v \<noteq> []" "v \<noteq> ''_loop_states''"
    and i: "loop_index (ctx st) n = Some (PInt (int k)) \<or> (k = 0 \<and> fresh_loop (ctx st) n)"
    and k: "k < length xs"
  shows "fst (exec_loop L n d st) = Inr (Some (Loop ''do''))
       \<and> map_of (ctx (snd (exec_loop L n d st))) (PStr v) = Some (xs ! k)
       \<and> loop_index (ctx (snd (exec_loop L n d st))) n = Some (PInt (int k + 1))"
  using i
proof
  assume "loop_index (ctx st) n = Some (PInt (int k))"
  then obtain ls s where "map_of (ctx st) (PStr ''_loop_states'') = Some (PDict ls)"
    "map_of ls n = Some (PDict s)" "map_of s ''index'' = Some (PInt (int k))"
    by (rule loop_indexD)
  then show ?thesis
    using exec_loop_known [OF c, of ls n s "PInt (int k)"] loop_step_do [OF k v(2) v(3)] v(1)
    by simp
next
  assume f: "k = 0 \<and> fresh_loop (ctx st) n"
  then obtain ls where "exec_loop L n d st =
      loop_step L n (dget d ''variable'' (PStr ''item'')) xs ls [(''index'', PInt 0)] (PInt 0)
        (st\<lparr>ctx := AList.update (PStr ''_loop_states'') (PDict ls) (ctx st)\<rparr>)"
    using exec_loop_fresh [OF c, of n] by blast
  then show ?thesis
    using loop_step_do [OF k v(2) v(3), of L n ls "[(''index'', PInt 0)]"] v(1) f
    by simp
qed

lemma exec_loop_done:
  assumes c: "loop_collection L (ctx st) (dget d ''collection'' (PStr [])) = PList xs"
    and i: "loop_index (ctx st) n = Some (PInt (int (length xs)))"
  shows "fst (exec_loop L n d st) = Inr (Some (Loop ''done''))
       \<and> loop_index (ctx (snd (exec_loop L n d st))) n = Some (PInt 0)"
proof -
  obtain ls s where "map_of (ctx st) (PStr ''_loop_states'') = Some (PDict ls)"
    "map_of ls n = Some (PDict s)" "map_of s ''index'' = Some (PInt (int (length xs)))"
    using i by (rule loop_indexD)
  then show ?thesis
    using exec_loop_known [OF c, of ls n s "PInt (int (length xs))"]
      loop_step_done [of "length xs" xs L n _ ls s st]
    by simp
qed

text \<open>
  C4 (amended). A loop node with a non-empty variable name (other than the reserved
  \<open>_loop_states\<close>), for which nothing is stored yet and whose collection resolves to
  \<open>[1, 2, 3]\<close> at each execution, yields \<open>loop("do")\<close> three times, binding the
  variable to 1, then 2, then 3, and then \<open>loop("done")\<close>; after that the index stored
  for the node in the loop-state sub-mapping is 0.
\<close>

theorem loop_over_three_items:
  assumes t: "ntype node = ''loop''"
    and v: "dget (data_of node) ''variable'' (PStr ''item'') = PStr v"
           "v \<noteq> []" "v \<noteq> ''_loop_states''"
    and f: "fresh_loop (ctx s0) (nid node)"
    and s: "s1 = snd (execute_node L node s0)" "s2 = snd (execute_node L node s1)"
           "s3 = snd (execute_node L node s2)" "s4 = snd (execute_node L node s3)"
    and c: "\<forall>st \<in> {s0, s1, s2, s3}.
              loop_collection L (ctx st) (dget (data_of node) ''collection'' (PStr []))
                = PList [PInt 1, PInt 2, PInt 3]"
  shows "fst (execute_node L node s0) = Inr (Some (Loop ''do''))
       \<and> map_of (ctx s1) (PStr v) = Some (PInt 1)
       \<and> fst (execute_node L node s1) = Inr (Some (Loop ''do''))
       \<and> map_of (ctx s2) (PStr v) = Some (PInt 2)
       \<and> fst (execute_node L node s2) = Inr (Some (Loop ''do''))
       \<and> map_of (ctx s3) (PStr v) = Some (PInt 3)
       \<and> fst (execute_node L node s3) = Inr (Some (Loop ''done''))
       \<and> loop_index (ctx s4) (nid node) = Some (PInt 0)"
proof -
  have e: "execute_node L node st = exec_loop L (nid node) (data_of node) st" for st
    using t by (simp add: execute_node_def)
  have c0: "loop_collection L (ctx s0) (dget (data_of node) ''collection'' (PStr []))
              = PList [PInt 1, PInt 2, PInt 3]"
    and c1: "loop_collection L (ctx s1) (dget (data_of node) ''collection'' (PStr []))
              = PList [PInt 1, PInt 2, PInt 3]"
    and c2: "loop_collection L (ctx s2) (dget (data_of node) ''collection'' (PStr []))
              = PList [PInt 1, PInt 2, PInt 3]"
    and c3: "loop_collection L (ctx s3) (dget (data_of node) ''collection'' (PStr []))
              = PList [PInt 1, PInt 2, PInt 3]"
    using c by simp_all
  have 1: "fst (execute_node L node s0) = Inr (Some (Loop ''do''))
           \<and> map_of (ctx s1) (PStr v) = Some (PInt 1)
           \<and> loop_index (ctx s1) (nid node) = Some (PInt 1)"
    using exec_loop_do [OF c0 v, of "nid node" 0] f unfolding s e by simp
  have 2: "fst (execute_node L node s1) = Inr (Some (Loop ''do''))
           \<and> map_of (ctx s2) (PStr v) = Some (PInt 2)
           \<and> loop_index (ctx s2) (nid node) = Some (PInt 2)"
    using exec_loop_do [OF c1 v, of "nid node" 1] 1 unfolding s(2) e by simp
  have 3: "fst (execute_node L node s2) = Inr (Some (Loop ''do''))
           \<and> map_of (ctx s3) (PStr v) = Some (PInt 3)
           \<and> loop_index (ctx s3) (nid node) = Some (PInt 3)"
    using exec_loop_do [OF c2 v, of "nid node" 2] 2 unfolding s(3) e by simp
  have 4: "fst (execute_node L node s3) = Inr (Some (Loop ''done''))
           \<and> loop_index (ctx s4) (nid node) = Some (PInt 0)"
    using exec_loop_done [OF c3, of "nid node"] 3 unfolding s(4) e by simp
  show ?thesis using 1 2 3 4 by simp
qed


lemma counting_loop_run:
  "execute_node lib counting_loop_node items_state =
     (Inr (Some (Loop ''do'')),
      \<lparr>ctx = [(PStr ''items'', PList [PInt 1, PInt 2, PInt 3]),
              (PStr ''_loop_states'', PDict [(''loop1'', PDict [(''index'', PInt 1)])]),
              (PStr ''item'', PInt 1)],
       execution_log = [''Loop loop1: Item 0 = 1'']\<rparr>)"
  "execute_node lib counting_loop_node
      \<lparr>ctx = [(PStr ''items'', PList [PInt 1, PInt 2, PInt 3]),
              (PStr ''_loop_states'', PDict [(''loop1'', PDict [(''index'', PInt 1)])]),
              (PStr ''item'', PInt 1)],
       execution_log = [''Loop loop1: Item 0 = 1'']\<rparr> =
     (Inr (Some (Loop ''do'')),
      \<lparr>ctx = [(PStr ''items'', PList [PInt 1, PInt 2, PInt 3]),
              (PStr ''_loop_states'', PDict [(''loop1'', PDict [(''index'', PInt 2)])]),
              (PStr ''item'', PInt 2)],
       execution_log = [''Loop loop1: Item 0 = 1'', ''Loop loop1: Item 1 = 2'']\<rparr>)"
  "execute_node lib counting_loop_node
      \<lparr>ctx = [(PStr ''items'', PList [PInt 1, PInt 2, PInt 3]),
              (PStr ''_loop_states'', PDict [(''loop1'', PDict [(''index'', PInt 2)])]),
              (PStr ''item'', PInt 2)],
       execution_log = [''Loop loop1: Item 0 = 1'', ''Loop loop1: Item 1 = 2'']\<rparr> =
     (Inr (Some (Loop ''do'')),
      \<lparr>ctx = [(PStr ''items'', PList [PInt 1, PInt 2, PInt 3]),
              (PStr ''_loop_states'', PDict [(''loop1'', PDict [(''index'', PInt 3)])]),
              (PStr ''item'', PInt 3)],
       execution_log = [''Loop loop1: Item 0 = 1'', ''Loop loop1: Item 1 = 2'',
                        ''Loop loop1: Item 2 = 3'']\<rparr>)"
  by code_simp+

theorem loop_over_three_items_witness:
  "fst (execute_node lib counting_loop_node items_state) = Inr (Some (Loop ''do''))
   \<and> loop_index (ctx (snd (execute_node lib counting_loop_node
        (snd (execute_node lib counting_loop_node
          (snd (execute_node lib counting_loop_node
            (snd (execute_node lib counting_loop_node items_state))))))))) ''loop1''
       = Some (PInt 0)"
  using loop_over_three_items [where L = lib and node = counting_loop_node and v = "''item''"
      and ?s0.0 = items_state
      and ?s1.0 = "snd (execute_node lib counting_loop_node items_state)"
      and ?s2.0 = "snd (execute_node lib counting_loop_node
                     (snd (execute_node lib counting_loop_node items_state)))"
      and ?s3.0 = "snd (execute_node lib counting_loop_node
                     (snd (execute_node lib counting_loop_node
                       (snd (execute_node lib counting_loop_node items_state)))))"
      and ?s4.0 = "snd (execute_node lib counting_loop_node
                     (snd (execute_node lib counting_loop_node
                       (snd (execute_node lib counting_loop_node
                         (snd (execute_node lib counting_loop_node items_state)))))))"]
  by (simp add: counting_loop_run)
     (simp add: counting_loop_node_def data_of_def dget_def fresh_loop_def items_state_def
        loop_collection_def resolve_val_def is_exact_ref_def startswith_def)

text \<open>
  A loop node over the literal collection \<open>[1, 2, 3]\<close> whose variable is named
  \<open>_loop_states\<close>: the first execution yields \<open>loop("do")\<close> and overwrites the reserved
  entry with the item, and the second execution raises instead of yielding \<open>loop("do")\<close>.
\<close>

theorem loop_reserved_variable_counterexample:
  "loop_collection lib (ctx init_state)
      (dget (data_of reserved_var_node) ''collection'' (PStr [])) = PList [PInt 1, PInt 2, PInt 3]
   \<and> fst (execute_node lib reserved_var_node init_state) = Inr (Some (Loop ''do''))
   \<and> loop_collection lib (ctx (snd (execute_node lib reserved_var_node init_state)))
      (dget (data_of reserved_var_node) ''collection'' (PStr [])) = PList [PInt 1, PInt 2, PInt 3]
   \<and> fst (execute_node lib reserved_var_node
             (snd (execute_node lib reserved_var_node init_state))) = Inl AttributeError"
  by code_simp

subsection \<open>Waves and termination\<close>

lemma process_layer_returned:
  "process_layer L g cur nl st = (Returned r, st1) \<Longrightarrow>
     (\<exists>p. r = response_result p st1)
     \<or> (\<exists>node st0 e. node \<in> snd ` set (nodes g) \<and> fst (execute_node L node st0) = Inl e
           \<and> r = error_result (exn_msg L e) st1)"
proof (induction cur arbitrary: nl st)
  case Nil
  then show ?case by simp
next
  case (Cons node_id rest)
  show ?case
  proof (cases "map_of (nodes g) node_id")
    case None
    then show ?thesis using Cons.prems by simp
  next
    case (Some node)
    then have mem: "node \<in> snd ` set (nodes g)"
      by (metis map_of_SomeD snd_conv image_eqI)
    let ?st0 = "log_append (''Executing Node: '' @ ntype node @ '' ('' @ node_id @ '')'') st"
    obtain x st2 where ex: "execute_node L node ?st0 = (x, st2)"
      by (cases "execute_node L node ?st0")
    show ?thesis
    proof (cases x)
      case (Inl e)
      then have f: "fst (execute_node L node ?st0) = Inl e" using ex by simp
      define st3 where
        "st3 = log_append (''Error executing node '' @ node_id @ '': '' @ exn_msg L e) st2"
      have "process_layer L g (node_id # rest) nl st =
              (Returned (error_result (exn_msg L e) st3), st3)"
        unfolding st3_def using Some ex Inl by (simp add: Let_def)
      with Cons.prems have "(Returned r, st1) = (Returned (error_result (exn_msg L e) st3), st3)"
        by (simp only:)
      then have "r = error_result (exn_msg L e) st1" by simp
      then show ?thesis using f mem by blast
    next
      case (Inr res)
      show ?thesis
      proof (cases "\<exists>p. res = Some (Response p)")
        case True
        then show ?thesis using Cons.prems Some ex Inr by auto
      next
        case False
        then have "process_layer L g (node_id # rest) nl st =
                     process_layer L g rest
                       (nl @ route g node_id (ntype node) (node_result res)) st2"
          using Some ex Inr
          by (auto split: option.splits outcome.splits)
        then show ?thesis using Cons.IH Cons.prems by simp
      qed
    qed
  qed
qed

lemma process_layer_raised:
  "process_layer L g cur nl st = (Raised e, st1) \<Longrightarrow>
     e = KeyError \<and> \<not> set cur \<subseteq> fst ` set (nodes g)"
proof (induction cur arbitrary: nl st)
  case Nil
  then show ?case by simp
next
  case (Cons node_id rest)
  show ?case
  proof (cases "map_of (nodes g) node_id")
    case None
    then have "node_id \<notin> fst ` set (nodes g)" by (simp add: map_of_eq_None_iff)
    then show ?thesis using Cons.prems None by simp
  next
    case (Some node)
    let ?st0 = "log_append (''Executing Node: '' @ ntype node @ '' ('' @ node_id @ '')'') st"
    obtain x st2 where ex: "execute_node L node ?st0 = (x, st2)"
      by (cases "execute_node L node ?st0")
    show ?thesis
    proof (cases x)
      case (Inl e)
      then show ?thesis using Cons.prems Some ex by (simp add: Let_def)
    next
      case (Inr res)
      show ?thesis
      proof (cases "\<exists>p. res = Some (Response p)")
        case True
        then show ?thesis using Cons.prems Some ex Inr by auto
      next
        case False
        then have "process_layer L g (node_id # rest) nl st =
                     process_layer L g rest
                       (nl @ route g node_id (ntype node) (node_result res)) st2"
          using Some ex Inr
          by (auto split: option.splits outcome.splits)
        then show ?thesis using Cons.IH Cons.prems by auto
      qed
    qed
  qed
qed


lemma run_waves_stop:
  "cur = [] \<or> \<not> n < 1000 \<Longrightarrow> run_waves L g cur n st = (Inr (completed_result st), st, n)"
  by (auto simp: run_waves.simps [of L g cur n st])

lemma run_waves_step:
  "cur \<noteq> [] \<Longrightarrow> n < 1000 \<Longrightarrow>
   run_waves L g cur n st =
     (case process_layer L g cur [] st of
        (Raised e, st1) \<Rightarrow> (Inl e, st1, n + 1)
      | (Returned r, st1) \<Rightarrow> (Inr r, st1, n + 1)
      | (Continue next_layer, st1) \<Rightarrow> run_waves L g (set_list L next_layer) (n + 1) st1)"
  by (auto simp: run_waves.simps [of L g cur n st])

declare run_waves.simps [simp del]

lemma run_waves_count: "n \<le> 1000 \<Longrightarrow> snd (snd (run_waves L g cur n st)) \<le> 1000"
proof (induction L g cur n st rule: run_waves.induct)
  case (1 L g cur n st)
  show ?case
  proof (cases "cur \<noteq> [] \<and> n < 1000")
    case False
    then show ?thesis using "1.prems" by (auto simp: run_waves_stop)
  next
    case True
    obtain x st1 where pl: "process_layer L g cur [] st = (x, st1)"
      by (cases "process_layer L g cur [] st")
    show ?thesis
    proof (cases x)
      case (Continue nl)
      have "snd (snd (run_waves L g (set_list L nl) (n + 1) st1)) \<le> 1000"
        using "1.IH" [OF True pl [symmetric] Continue] True by simp
      then show ?thesis using True pl Continue by (simp add: run_waves_step)
    qed (use True pl in \<open>simp_all add: run_waves_step\<close>)
  qed
qed

lemma run_waves_result:
  "run_waves L g cur n st = (Inr r, st1, k) \<Longrightarrow>
     (\<exists>p. r = response_result p st1)
     \<or> (\<exists>node st0 e. node \<in> snd ` set (nodes g) \<and> fst (execute_node L node st0) = Inl e
           \<and> r = error_result (exn_msg L e) st1)
     \<or> r = completed_result st1"
proof (induction L g cur n st rule: run_waves.induct)
  case (1 L g cur n st)
  show ?case
  proof (cases "cur \<noteq> [] \<and> n < 1000")
    case False
    then show ?thesis using "1.prems" by (auto simp: run_waves_stop)
  next
    case True
    obtain x st2 where pl: "process_layer L g cur [] st = (x, st2)"
      by (cases "process_layer L g cur [] st")
    show ?thesis
    proof (cases x)
      case (Raised e)
      then show ?thesis using True pl "1.prems" by (simp add: run_waves_step)
    next
      case (Returned r2)
      then have "r2 = r" "st2 = st1" using True pl "1.prems" by (simp_all add: run_waves_step)
      then show ?thesis using process_layer_returned [of L g cur "[]" st r st1] pl Returned
        by blast
    next
      case (Continue nl)
      then have "run_waves L g (set_list L nl) (n + 1) st2 = (Inr r, st1, k)"
        using True pl "1.prems" by (simp add: run_waves_step)
      then show ?thesis using "1.IH" [OF True pl [symmetric] Continue] by simp
    qed
  qed
qed

lemma run_waves_raised:
  "run_waves L g cur n st = (Inl e, st1, k) \<Longrightarrow> e = KeyError"
proof (induction L g cur n st rule: run_waves.induct)
  case (1 L g cur n st)
  show ?case
  proof (cases "cur \<noteq> [] \<and> n < 1000")
    case False
    then show ?thesis using "1.prems" by (auto simp: run_waves_stop)
  next
    case True
    obtain x st2 where pl: "process_layer L g cur [] st = (x, st2)"
      by (cases "process_layer L g cur [] st")
    show ?thesis
    proof (cases x)
      case (Raised e2)
      then have "e2 = e" using True pl "1.prems" by (simp add: run_waves_step)
      then show ?thesis using process_layer_raised [of L g cur "[]" st e st2] pl Raised by simp
    next
      case (Returned r2)
      then show ?thesis using True pl "1.prems" by (simp add: run_waves_step)
    next
      case (Continue nl)
      then have "run_waves L g (set_list L nl) (n + 1) st2 = (Inl e, st1, k)"
        using True pl "1.prems" by (simp add: run_waves_step)
      then show ?thesis using "1.IH" [OF True pl [symmetric] Continue] by simp
    qed
  qed
qed


lemma update_fresh: "k \<notin> fst ` set al \<Longrightarrow> AList.update k v al = al @ [(k, v)]"
  by (induction al) auto

lemma fold_update_distinct:
  "distinct (map nid ns) \<Longrightarrow> nid ` set ns \<inter> fst ` set m = {} \<Longrightarrow>
   fold (\<lambda>n m. AList.update (nid n) n m) ns m = m @ map (\<lambda>n. (nid n, n)) ns"
proof (induction ns arbitrary: m)
  case Nil
  then show ?case by simp
next
  case (Cons a ns)
  have fr: "nid a \<notin> fst ` set m" using Cons.prems(2) by auto
  have "nid ` set ns \<inter> fst ` set (m @ [(nid a, a)]) = {}"
    using Cons.prems by auto
  then show ?case using Cons.IH [of "m @ [(nid a, a)]"] Cons.prems(1) fr
    by (simp add: update_fresh)
qed

lemma nodes_init_graph:
  "distinct (map nid (wf_nodes wd)) \<Longrightarrow>
   nodes (init_graph wd) = map (\<lambda>n. (nid n, n)) (wf_nodes wd)"
  using fold_update_distinct [of "wf_nodes wd" "[]"] by (simp add: init_graph_def)

lemma update_entry:
  "(k1, v1) \<in> set (AList.update k v al) \<Longrightarrow> (k1, v1) \<in> set al \<or> (k1 = k \<and> v1 = v)"
  by (induction al) (auto split: if_splits)

lemma add_edge_targets:
  assumes a: "\<And>s es t h. (s, es) \<in> set adj \<Longrightarrow> (t, h) \<in> set es \<Longrightarrow> t \<in> T"
    and e: "target e \<in> T"
    and m: "(s, es) \<in> set (add_edge e adj)" and x: "(t, h) \<in> set es"
  shows "t \<in> T"
proof -
  let ?old = "case map_of adj (source e) of None \<Rightarrow> [] | Some es \<Rightarrow> es"
  have old: "t1 \<in> T" if "(t1, h1) \<in> set ?old" for t1 h1
  proof (cases "map_of adj (source e)")
    case None
    then show ?thesis using that by simp
  next
    case (Some es1)
    then have "(source e, es1) \<in> set adj" by (rule map_of_SomeD)
    then show ?thesis using a [of "source e" es1 t1 h1] that Some by simp
  qed
  from m consider "(s, es) \<in> set adj" | "es = ?old @ [(target e, sourceHandle e)]"
    unfolding add_edge_def using update_entry by fastforce
  then show ?thesis
  proof cases
    case 1
    then show ?thesis using a x by blast
  next
    case 2
    then have "(t, h) \<in> set ?old \<or> t = target e" using x by auto
    then show ?thesis using old e by blast
  qed
qed

lemma fold_add_edge_targets:
  assumes "\<And>s es t h. (s, es) \<in> set adj \<Longrightarrow> (t, h) \<in> set es \<Longrightarrow> t \<in> T"
    and "target ` set edges \<subseteq> T"
    and "(s, es) \<in> set (fold add_edge edges adj)" and "(t, h) \<in> set es"
  shows "t \<in> T"
  using assms
proof (induction edges arbitrary: adj)
  case Nil
  then show ?case by simp
next
  case (Cons e edges)
  have te: "target e \<in> T" using Cons.prems(2) by simp
  have step: "t1 \<in> T" if "(s1, es1) \<in> set (add_edge e adj)" "(t1, h1) \<in> set es1"
    for s1 es1 t1 h1
    using add_edge_targets [of adj T e s1 es1 t1 h1] Cons.prems(1) te that by blast
  show ?case
    using Cons.IH [of "add_edge e adj"] step Cons.prems(2,3,4) by auto
qed

lemma route_targets:
  assumes "targets_exist wd"
  shows "set (route (init_graph wd) node_id node_type nr) \<subseteq> nid ` set (wf_nodes wd)"
proof (cases "map_of (adjacency (init_graph wd)) node_id")
  case None
  then show ?thesis by (simp add: route_def)
next
  case (Some es)
  have sub: "target ` set (wf_edges wd) \<subseteq> nid ` set (wf_nodes wd)"
    using assms by (auto simp: targets_exist_def list_all_iff)
  have mem: "(node_id, es) \<in> set (fold add_edge (wf_edges wd) [])"
    using map_of_SomeD [OF Some] by (simp add: init_graph_def)
  have "t \<in> nid ` set (wf_nodes wd)" if "(t, h) \<in> set es" for t h
    using fold_add_edge_targets [of "[]" "nid ` set (wf_nodes wd)" "wf_edges wd" node_id es t h]
      sub mem that by simp
  then show ?thesis using Some by (auto simp: route_def)
qed


lemma process_layer_continue:
  assumes r: "\<And>node_id nt nr. set (route g node_id nt nr) \<subseteq> T"
  shows "set nl \<subseteq> T \<Longrightarrow> process_layer L g cur nl st = (Continue nl1, st1) \<Longrightarrow> set nl1 \<subseteq> T"
proof (induction cur arbitrary: nl st)
  case Nil
  then show ?case by simp
next
  case (Cons node_id rest)
  show ?case
  proof (cases "map_of (nodes g) node_id")
    case None
    then show ?thesis using Cons.prems by simp
  next
    case (Some node)
    let ?st0 = "log_append (''Executing Node: '' @ ntype node @ '' ('' @ node_id @ '')'') st"
    obtain x st2 where ex: "execute_node L node ?st0 = (x, st2)"
      by (cases "execute_node L node ?st0")
    show ?thesis
    proof (cases x)
      case (Inl e)
      then show ?thesis using Cons.prems Some ex by (simp add: Let_def)
    next
      case (Inr res)
      show ?thesis
      proof (cases "\<exists>p. res = Some (Response p)")
        case True
        then show ?thesis using Cons.prems Some ex Inr by auto
      next
        case False
        then have eq: "process_layer L g (node_id # rest) nl st =
                     process_layer L g rest
                       (nl @ route g node_id (ntype node) (node_result res)) st2"
          using Some ex Inr
          by (auto split: option.splits outcome.splits)
        have sub: "set (nl @ route g node_id (ntype node) (node_result res)) \<subseteq> T"
          using Cons.prems(1) r by simp
        have "process_layer L g rest
                (nl @ route g node_id (ntype node) (node_result res)) st2 = (Continue nl1, st1)"
          using Cons.prems(2) unfolding eq .
        then show ?thesis using Cons.IH [OF sub] by blast
      qed
    qed
  qed
qed

lemma run_waves_returns:
  assumes r: "\<And>node_id nt nr. set (route g node_id nt nr) \<subseteq> T"
    and t: "T \<subseteq> fst ` set (nodes g)"
    and sl: "\<And>xs. set (set_list L xs) \<subseteq> set xs"
  shows "set cur \<subseteq> T \<Longrightarrow> \<exists>r. fst (run_waves L g cur n st) = Inr r"
  using r t sl
proof (induction L g cur n st rule: run_waves.induct)
  case (1 L g cur n st)
  from "1.prems" have c: "set cur \<subseteq> T" and tt: "T \<subseteq> fst ` set (nodes g)"
    and ss: "\<And>xs. set (set_list L xs) \<subseteq> set xs"
    and rr: "\<And>a b c. set (route g a b c) \<subseteq> T"
    by blast+
  show ?case
  proof (cases "cur \<noteq> [] \<and> n < 1000")
    case False
    then show ?thesis by (auto simp: run_waves_stop)
  next
    case True
    obtain x st2 where pl: "process_layer L g cur [] st = (x, st2)"
      by (cases "process_layer L g cur [] st")
    show ?thesis
    proof (cases x)
      case (Raised e)
      then have "\<not> set cur \<subseteq> fst ` set (nodes g)"
        using process_layer_raised [of L g cur "[]" st e st2] pl by simp
      then show ?thesis using c tt by blast
    next
      case (Returned r2)
      then show ?thesis using True pl by (simp add: run_waves_step)
    next
      case (Continue nl)
      have "set nl \<subseteq> T"
        using process_layer_continue [of g T "[]" L cur st nl st2] rr pl Continue
        by simp
      then have "set (set_list L nl) \<subseteq> T" using ss by blast
      then have "\<exists>r. fst (run_waves L g (set_list L nl) (n + 1) st2) = Inr r"
        using "1.IH" [OF True pl [symmetric] Continue] rr tt ss by blast
      then show ?thesis using True pl Continue by (simp add: run_waves_step)
    qed
  qed
qed

lemma find_unique:
  "filter P xs = [x] \<Longrightarrow> find P xs = Some x"
  by (induction xs) (auto split: if_splits)

lemma find_start_init_graph:
  assumes "distinct (map nid (wf_nodes wd))"
    and "filter (\<lambda>n. ntype n = ''api'') (wf_nodes wd) = [start]"
  shows "find_start (init_graph wd) = Some start"
proof -
  have "find (\<lambda>(node_id, node). ntype node = ''api'') (map (\<lambda>n. (nid n, n)) ns)
          = map_option (\<lambda>n. (nid n, n)) (find (\<lambda>n. ntype n = ''api'') ns)" for ns :: "'a node list"
    by (induction ns) auto
  then show ?thesis
    using find_unique [OF assms(2)] nodes_init_graph [OF assms(1)]
    by (simp add: find_start_def)
qed


lemma result_status:
  "r_status (response_result p st) = Some ''success''"
  "r_status (completed_result st) = Some ''success''"
  "r_status (error_result m st) = Some ''error''"
  "r_error (error_result m st) = Some m"
  by (simp_all add: response_result_def completed_result_def error_result_def)

lemma process_layer_append:
  "process_layer L g (xs @ ys) nl st =
     (case process_layer L g xs nl st of
        (Continue nl1, st1) \<Rightarrow> process_layer L g ys nl1 st1
      | other \<Rightarrow> other)"
proof (induction xs arbitrary: nl st)
  case Nil
  then show ?case by simp
next
  case (Cons node_id rest)
  show ?case
  proof (cases "map_of (nodes g) node_id")
    case None
    then show ?thesis by simp
  next
    case (Some node)
    let ?st0 = "log_append (''Executing Node: '' @ ntype node @ '' ('' @ node_id @ '')'') st"
    obtain x st2 where ex: "execute_node L node ?st0 = (x, st2)"
      by (cases "execute_node L node ?st0")
    show ?thesis
    proof (cases x)
      case (Inl e)
      then show ?thesis using Some ex by (simp add: Let_def)
    next
      case (Inr res)
      then show ?thesis using Some ex Cons.IH
        by (auto split: option.splits outcome.splits)
    qed
  qed
qed

lemma run_counted_seeded:
  assumes "find_start g = Some start" and "ndata start = Some d"
    and "init_variables L (nodes g) st = (None, st1)"
  shows "run_counted L g input_data st =
           run_waves L g [nid start] 0 (seeded_state L d input_data st1)"
  using assms by (simp add: run_counted_def seeded_state_def Let_def log_append_def)

lemma run_waves_follow:
  "wave_at L g i cur st = Some (cur1, st1) \<Longrightarrow> n + i \<le> 1000 \<Longrightarrow>
   run_waves L g cur n st = run_waves L g cur1 (n + i) st1"
proof (induction i arbitrary: cur st n)
  case 0
  then show ?case by simp
next
  case (Suc i)
  from Suc.prems(1) have ne: "cur \<noteq> []" by (auto split: if_splits)
  obtain x st2 where pl: "process_layer L g cur [] st = (x, st2)"
    by (cases "process_layer L g cur [] st")
  from Suc.prems(1) ne pl obtain nl where x: "x = Continue nl"
    and w: "wave_at L g i (set_list L nl) st2 = Some (cur1, st1)"
    by (cases x) auto
  have n: "n < 1000" using Suc.prems(2) by simp
  have "run_waves L g cur n st = run_waves L g (set_list L nl) (n + 1) st2"
    using ne n pl x by (simp add: run_waves_step)
  also have "\<dots> = run_waves L g cur1 (n + 1 + i) st1"
    using Suc.IH [OF w, of "n + 1"] Suc.prems(2) by simp
  finally show ?case by simp
qed

lemma run_waves_node_raises:
  assumes "n < 1000"
    and "process_layer L g pre [] st = (Continue nl, st0)"
    and "map_of (nodes g) node_id = Some node"
    and "execute_node L node
           (log_append (''Executing Node: '' @ ntype node @ '' ('' @ node_id @ '')'') st0)
         = (Inl e, st2)"
  shows "run_waves L g (pre @ node_id # rest) n st =
           (Inr (error_result (exn_msg L e)
                   (log_append (''Error executing node '' @ node_id @ '': '' @ exn_msg L e) st2)),
            log_append (''Error executing node '' @ node_id @ '': '' @ exn_msg L e) st2, n + 1)"
proof -
  have "process_layer L g (node_id # rest) nl st0 =
          (Returned (error_result (exn_msg L e)
                       (log_append (''Error executing node '' @ node_id @ '': '' @ exn_msg L e) st2)),
           log_append (''Error executing node '' @ node_id @ '': '' @ exn_msg L e) st2)"
    using assms(3) assms(4) by (simp add: Let_def)
  then have "process_layer L g (pre @ node_id # rest) [] st =
          (Returned (error_result (exn_msg L e)
                       (log_append (''Error executing node '' @ node_id @ '': '' @ exn_msg L e) st2)),
           log_append (''Error executing node '' @ node_id @ '': '' @ exn_msg L e) st2)"
    using assms(2) by (simp add: process_layer_append)
  then show ?thesis using assms(1) by (simp add: run_waves_step)
qed

lemma run_waves_missing_node:
  assumes "n < 1000"
    and "process_layer L g pre [] st = (Continue nl, st0)"
    and "map_of (nodes g) node_id = None"
  shows "run_waves L g (pre @ node_id # rest) n st = (Inl KeyError, st0, n + 1)"
proof -
  have "process_layer L g (pre @ node_id # rest) [] st = (Raised KeyError, st0)"
    using assms(2) assms(3) by (simp add: process_layer_append)
  then show ?thesis using assms(1) by (simp add: run_waves_step)
qed


lemma process_layer_returned_cause:
  "process_layer L g cur nl st = (Returned r, s) \<Longrightarrow>
     (\<exists>p. r = response_result p s)
     \<or> (\<exists>pre node_id rest nl0 st0 node e st2.
           cur = pre @ node_id # rest
           \<and> process_layer L g pre nl st = (Continue nl0, st0)
           \<and> map_of (nodes g) node_id = Some node
           \<and> execute_node L node
                 (log_append (''Executing Node: '' @ ntype node @ '' ('' @ node_id @ '')'') st0)
               = (Inl e, st2)
           \<and> s = log_append (''Error executing node '' @ node_id @ '': '' @ exn_msg L e) st2
           \<and> r = error_result (exn_msg L e) s)"
proof (induction cur arbitrary: nl st)
  case Nil
  then show ?case by simp
next
  case (Cons node_id rest)
  show ?case
  proof (cases "map_of (nodes g) node_id")
    case None
    then show ?thesis using Cons.prems by simp
  next
    case (Some node)
    let ?st0 = "log_append (''Executing Node: '' @ ntype node @ '' ('' @ node_id @ '')'') st"
    obtain x st2 where ex: "execute_node L node ?st0 = (x, st2)"
      by (cases "execute_node L node ?st0")
    show ?thesis
    proof (cases x)
      case (Inl e)
      define st3 where
        "st3 = log_append (''Error executing node '' @ node_id @ '': '' @ exn_msg L e) st2"
      have "process_layer L g (node_id # rest) nl st =
              (Returned (error_result (exn_msg L e) st3), st3)"
        unfolding st3_def using Some ex Inl by (simp add: Let_def)
      with Cons.prems have "(Returned r, s) = (Returned (error_result (exn_msg L e) st3), st3)"
        by (simp only:)
      then have rs: "r = error_result (exn_msg L e) s" "s = st3" by simp_all
      have "node_id # rest = [] @ node_id # rest
            \<and> process_layer L g [] nl st = (Continue nl, st)
            \<and> map_of (nodes g) node_id = Some node
            \<and> execute_node L node ?st0 = (Inl e, st2)
            \<and> s = log_append (''Error executing node '' @ node_id @ '': '' @ exn_msg L e) st2
            \<and> r = error_result (exn_msg L e) s"
        using Some ex Inl rs st3_def by simp
      then show ?thesis by blast
    next
      case (Inr res)
      show ?thesis
      proof (cases "\<exists>p. res = Some (Response p)")
        case True
        then show ?thesis using Cons.prems Some ex Inr by auto
      next
        case False
        let ?nl = "nl @ route g node_id (ntype node) (node_result res)"
        have eq: "process_layer L g (node_id # ys) nl st = process_layer L g ys ?nl st2" for ys
          using False Some ex Inr by (auto split: option.splits outcome.splits)
        have "process_layer L g rest ?nl st2 = (Returned r, s)"
          using Cons.prems unfolding eq .
        from Cons.IH [OF this] show ?thesis
        proof
          assume "\<exists>p. r = response_result p s"
          then show ?thesis by blast
        next
          assume "\<exists>pre nid1 rest1 nl0 st0 node1 e st3.
             rest = pre @ nid1 # rest1
             \<and> process_layer L g pre ?nl st2 = (Continue nl0, st0)
             \<and> map_of (nodes g) nid1 = Some node1
             \<and> execute_node L node1
                   (log_append (''Executing Node: '' @ ntype node1 @ '' ('' @ nid1 @ '')'') st0)
                 = (Inl e, st3)
             \<and> s = log_append (''Error executing node '' @ nid1 @ '': '' @ exn_msg L e) st3
             \<and> r = error_result (exn_msg L e) s"
          then obtain pre nid1 rest1 nl0 st0 node1 e st3 where
            h: "rest = pre @ nid1 # rest1"
               "process_layer L g pre ?nl st2 = (Continue nl0, st0)"
               "map_of (nodes g) nid1 = Some node1"
               "execute_node L node1
                   (log_append (''Executing Node: '' @ ntype node1 @ '' ('' @ nid1 @ '')'') st0)
                 = (Inl e, st3)"
               "s = log_append (''Error executing node '' @ nid1 @ '': '' @ exn_msg L e) st3"
               "r = error_result (exn_msg L e) s"
            by blast
          have "node_id # rest = (node_id # pre) @ nid1 # rest1" using h(1) by simp
          moreover have "process_layer L g (node_id # pre) nl st = (Continue nl0, st0)"
            using h(2) unfolding eq .
          ultimately show ?thesis using h(3-6) by blast
        qed
      qed
    qed
  qed
qed


lemma process_layer_raised_cause:
  "process_layer L g cur nl st = (Raised e, s) \<Longrightarrow>
     e = KeyError
     \<and> (\<exists>pre node_id rest nl0.
           cur = pre @ node_id # rest
           \<and> process_layer L g pre nl st = (Continue nl0, s)
           \<and> map_of (nodes g) node_id = None)"
proof (induction cur arbitrary: nl st)
  case Nil
  then show ?case by simp
next
  case (Cons node_id rest)
  show ?case
  proof (cases "map_of (nodes g) node_id")
    case None
    then have "e = KeyError" "s = st" using Cons.prems by simp_all
    moreover have "node_id # rest = [] @ node_id # rest
                   \<and> process_layer L g [] nl st = (Continue nl, st)
                   \<and> map_of (nodes g) node_id = None"
      using None by simp
    ultimately show ?thesis by blast
  next
    case (Some node)
    let ?st0 = "log_append (''Executing Node: '' @ ntype node @ '' ('' @ node_id @ '')'') st"
    obtain x st2 where ex: "execute_node L node ?st0 = (x, st2)"
      by (cases "execute_node L node ?st0")
    show ?thesis
    proof (cases x)
      case (Inl e1)
      then show ?thesis using Cons.prems Some ex by (simp add: Let_def)
    next
      case (Inr res)
      show ?thesis
      proof (cases "\<exists>p. res = Some (Response p)")
        case True
        then show ?thesis using Cons.prems Some ex Inr by auto
      next
        case False
        let ?nl = "nl @ route g node_id (ntype node) (node_result res)"
        have eq: "process_layer L g (node_id # ys) nl st = process_layer L g ys ?nl st2" for ys
          using False Some ex Inr by (auto split: option.splits outcome.splits)
        have "process_layer L g rest ?nl st2 = (Raised e, s)"
          using Cons.prems unfolding eq .
        from Cons.IH [OF this] obtain pre nid1 rest1 nl0 where
          k: "e = KeyError" and
          h: "rest = pre @ nid1 # rest1"
             "process_layer L g pre ?nl st2 = (Continue nl0, s)"
             "map_of (nodes g) nid1 = None"
          by blast
        have "node_id # rest = (node_id # pre) @ nid1 # rest1" using h(1) by simp
        moreover have "process_layer L g (node_id # pre) nl st = (Continue nl0, s)"
          using h(2) unfolding eq .
        ultimately show ?thesis using k h(3) by blast
      qed
    qed
  qed
qed

lemma run_waves_last_wave:
  "run_waves L g cur n st = (x, s, k) \<Longrightarrow> n \<le> 1000 \<Longrightarrow>
     \<exists>i cur1 st1. wave_at L g i cur st = Some (cur1, st1) \<and> n + i \<le> 1000
       \<and> ((cur1 = [] \<or> n + i = 1000) \<and> x = Inr (completed_result st1) \<and> s = st1
          \<or> cur1 \<noteq> [] \<and> n + i < 1000
            \<and> (\<exists>e. process_layer L g cur1 [] st1 = (Raised e, s) \<and> x = Inl e)
          \<or> cur1 \<noteq> [] \<and> n + i < 1000
            \<and> (\<exists>r. process_layer L g cur1 [] st1 = (Returned r, s) \<and> x = Inr r))"
proof (induction L g cur n st rule: run_waves.induct)
  case (1 L g cur n st)
  show ?case
  proof (cases "cur \<noteq> [] \<and> n < 1000")
    case False
    then have "x = Inr (completed_result st)" "s = st"
      using "1.prems"(1) by (auto simp: run_waves_stop)
    moreover have "wave_at L g 0 cur st = Some (cur, st)" by simp
    moreover have "cur = [] \<or> n + 0 = 1000" using False "1.prems"(2) by auto
    ultimately show ?thesis using "1.prems"(2)
      by (intro exI [of _ 0] exI [of _ cur] exI [of _ st]) simp
  next
    case True
    obtain y st2 where pl: "process_layer L g cur [] st = (y, st2)"
      by (cases "process_layer L g cur [] st")
    show ?thesis
    proof (cases y)
      case (Raised e)
      then have "x = Inl e" "s = st2" using True pl "1.prems"(1) by (simp_all add: run_waves_step)
      then have "wave_at L g 0 cur st = Some (cur, st) \<and> n + 0 \<le> 1000
                 \<and> cur \<noteq> [] \<and> n + 0 < 1000
                 \<and> (\<exists>e. process_layer L g cur [] st = (Raised e, s) \<and> x = Inl e)"
        using True pl Raised by simp
      then show ?thesis by blast
    next
      case (Returned r)
      then have "x = Inr r" "s = st2" using True pl "1.prems"(1) by (simp_all add: run_waves_step)
      then have "wave_at L g 0 cur st = Some (cur, st) \<and> n + 0 \<le> 1000
                 \<and> cur \<noteq> [] \<and> n + 0 < 1000
                 \<and> (\<exists>r. process_layer L g cur [] st = (Returned r, s) \<and> x = Inr r)"
        using True pl Returned by simp
      then show ?thesis by blast
    next
      case (Continue nl)
      then have rw: "run_waves L g (set_list L nl) (n + 1) st2 = (x, s, k)"
        using True pl "1.prems"(1) by (simp add: run_waves_step)
      have n1: "n + 1 \<le> 1000" using True by simp
      from "1.IH" [OF True pl [symmetric] Continue rw n1]
      obtain i cur1 st1 where
        w: "wave_at L g i (set_list L nl) st2 = Some (cur1, st1)" and b: "n + 1 + i \<le> 1000"
        and c: "(cur1 = [] \<or> n + 1 + i = 1000) \<and> x = Inr (completed_result st1) \<and> s = st1
          \<or> cur1 \<noteq> [] \<and> n + 1 + i < 1000
            \<and> (\<exists>e. process_layer L g cur1 [] st1 = (Raised e, s) \<and> x = Inl e)
          \<or> cur1 \<noteq> [] \<and> n + 1 + i < 1000
            \<and> (\<exists>r. process_layer L g cur1 [] st1 = (Returned r, s) \<and> x = Inr r)"
        by blast
      have w2: "wave_at L g (Suc i) cur st = Some (cur1, st1)"
        using True pl Continue w by simp
      have e: "n + Suc i = n + 1 + i" by simp
      show ?thesis
        using w2 b c unfolding e [symmetric] by blast
    qed
  qed
qed

lemma embedded_run:
  "run_counted lib (init_graph embedded_workflow) [] init_state =
     (Inr (completed_result
             \<lparr>ctx = [(PStr ''request'', PDict [])],
              execution_log = [''Started execution at New api'',
                               ''Executing Node: api (api-1768636097809)'']\<rparr>),
      \<lparr>ctx = [(PStr ''request'', PDict [])],
       execution_log = [''Started execution at New api'',
                        ''Executing Node: api (api-1768636097809)'']\<rparr>,
      1)"
  by code_simp

text \<open>
  C1 (amended). For every workflow with unique node ids and exactly one api node, which
  has a \<open>data\<close> field, and whose variable nodes initialise without raising, a run on
  any input record terminates after at most 1000 waves, and its outcome is one of three.
  \<^item> A node of a wave raises (the nodes before it in the wave having run through): \<open>run\<close>
    returns at once the result with status \<open>error\<close>, the message of that failure and
    the log with the error line; a result with status \<open>error\<close> arises in no other way.
  \<^item> A wave reaches an id that names no node: \<open>KeyError\<close> leaves \<open>run\<close>; no other
    exception leaves it, and none in another way.
  \<^item> Otherwise \<open>run\<close> returns a result with status \<open>success\<close>.
  When every edge target names a node (and listing a set yields only its elements),
  \<open>run\<close> returns a result.
\<close>

theorem run_outcome:
  fixes wd :: "'f workflow" and L :: "'f pylib" and dd input_data st1 g s0
  defines "g \<equiv> init_graph wd"
    and "s0 \<equiv> seeded_state L dd input_data st1"
  assumes d: "distinct (map nid (wf_nodes wd))"
    and a: "filter (\<lambda>n. ntype n = ''api'') (wf_nodes wd) = [start]"
    and sd: "ndata start = Some dd"
    and iv: "init_variables L (nodes (init_graph wd)) init_state = (None, st1)"
  shows "snd (snd (run_counted L g input_data init_state)) \<le> 1000
       \<and> (\<forall>e. fst (handle_request L wd input_data) = Inl e \<longrightarrow>
              e = KeyError
              \<and> (\<exists>i pre node_id rest st nl st0.
                    i < 1000 \<and> wave_at L g i [nid start] s0 = Some (pre @ node_id # rest, st)
                    \<and> process_layer L g pre [] st = (Continue nl, st0)
                    \<and> map_of (nodes g) node_id = None))
       \<and> (\<forall>r. fst (handle_request L wd input_data) = Inr r \<longrightarrow>
              r_status r = Some ''success''
              \<or> (r_status r = Some ''error''
                  \<and> (\<exists>i pre node_id rest st nl st0 node e st2.
                        i < 1000 \<and> wave_at L g i [nid start] s0 = Some (pre @ node_id # rest, st)
                        \<and> process_layer L g pre [] st = (Continue nl, st0)
                        \<and> map_of (nodes g) node_id = Some node
                        \<and> execute_node L node
                              (log_append (''Executing Node: '' @ ntype node @ '' ('' @ node_id
                                           @ '')'') st0) = (Inl e, st2)
                        \<and> r = error_result (exn_msg L e)
                                (log_append (''Error executing node '' @ node_id @ '': ''
                                             @ exn_msg L e) st2))))
       \<and> (\<forall>i pre node_id rest st nl st0 node e st2.
              i < 1000 \<and> wave_at L g i [nid start] s0 = Some (pre @ node_id # rest, st)
              \<and> process_layer L g pre [] st = (Continue nl, st0)
              \<and> map_of (nodes g) node_id = Some node
              \<and> execute_node L node
                    (log_append (''Executing Node: '' @ ntype node @ '' ('' @ node_id @ '')'') st0)
                  = (Inl e, st2)
              \<longrightarrow> handle_request L wd input_data =
                    (Inr (error_result (exn_msg L e)
                            (log_append (''Error executing node '' @ node_id @ '': ''
                                         @ exn_msg L e) st2)),
                     log_append (''Error executing node '' @ node_id @ '': '' @ exn_msg L e) st2))
       \<and> (\<forall>i pre node_id rest st nl st0.
              i < 1000 \<and> wave_at L g i [nid start] s0 = Some (pre @ node_id # rest, st)
              \<and> process_layer L g pre [] st = (Continue nl, st0)
              \<and> map_of (nodes g) node_id = None
              \<longrightarrow> handle_request L wd input_data = (Inl KeyError, st0))
       \<and> (targets_exist wd \<and> (\<forall>xs. set (set_list L xs) \<subseteq> set xs) \<longrightarrow>
              (\<exists>r. fst (handle_request L wd input_data) = Inr r))"
proof -
  have fs: "find_start g = Some start"
    unfolding g_def using find_start_init_graph [OF d a] .
  have rc: "run_counted L g input_data init_state = run_waves L g [nid start] 0 s0"
    unfolding s0_def using run_counted_seeded [OF fs sd, of L init_state st1 input_data] iv
    by (simp add: g_def)
  obtain x stf k where rw: "run_waves L g [nid start] 0 s0 = (x, stf, k)"
    by (cases "run_waves L g [nid start] 0 s0")
  have hr: "handle_request L wd input_data = (x, stf)"
    using rc rw by (simp add: handle_request_def WorkflowExecutor_def run_def g_def)
  have ks: "fst ` set (nodes g) = nid ` set (wf_nodes wd)"
    by (simp add: g_def nodes_init_graph [OF d] image_image)
  have 1: "snd (snd (run_counted L g input_data init_state)) \<le> 1000"
    unfolding rc by (rule run_waves_count) simp
  from run_waves_last_wave [OF rw] obtain i cur1 st3 where
    w: "wave_at L g i [nid start] s0 = Some (cur1, st3)" and b: "i \<le> 1000"
    and c: "(cur1 = [] \<or> i = 1000) \<and> x = Inr (completed_result st3) \<and> stf = st3
          \<or> cur1 \<noteq> [] \<and> i < 1000
            \<and> (\<exists>e. process_layer L g cur1 [] st3 = (Raised e, stf) \<and> x = Inl e)
          \<or> cur1 \<noteq> [] \<and> i < 1000
            \<and> (\<exists>r. process_layer L g cur1 [] st3 = (Returned r, stf) \<and> x = Inr r)"
    by auto
  have 2: "e = KeyError
           \<and> (\<exists>i pre node_id rest st nl st0.
                 i < 1000 \<and> wave_at L g i [nid start] s0 = Some (pre @ node_id # rest, st)
                 \<and> process_layer L g pre [] st = (Continue nl, st0)
                 \<and> map_of (nodes g) node_id = None)" if "x = Inl e" for e
  proof -
    from c that have i: "i < 1000" and pl: "process_layer L g cur1 [] st3 = (Raised e, stf)"
      by auto
    from process_layer_raised_cause [OF pl] obtain pre node_id rest nl0 where
      "e = KeyError" "cur1 = pre @ node_id # rest"
      "process_layer L g pre [] st3 = (Continue nl0, stf)" "map_of (nodes g) node_id = None"
      by blast
    then show ?thesis using i w by blast
  qed
  have 3: "r_status r = Some ''success''
           \<or> (r_status r = Some ''error''
               \<and> (\<exists>i pre node_id rest st nl st0 node e st2.
                     i < 1000 \<and> wave_at L g i [nid start] s0 = Some (pre @ node_id # rest, st)
                     \<and> process_layer L g pre [] st = (Continue nl, st0)
                     \<and> map_of (nodes g) node_id = Some node
                     \<and> execute_node L node
                           (log_append (''Executing Node: '' @ ntype node @ '' ('' @ node_id
                                        @ '')'') st0) = (Inl e, st2)
                     \<and> r = error_result (exn_msg L e)
                             (log_append (''Error executing node '' @ node_id @ '': ''
                                          @ exn_msg L e) st2)))" if "x = Inr r" for r
  proof -
    from c that consider "r = completed_result st3"
      | "i < 1000" "process_layer L g cur1 [] st3 = (Returned r, stf)"
      by auto
    then show ?thesis
    proof cases
      case 1
      then show ?thesis by (simp add: result_status)
    next
      case 2
      from process_layer_returned_cause [OF 2(2)] show ?thesis
      proof
        assume "\<exists>p. r = response_result p stf"
        then show ?thesis by (auto simp: result_status)
      next
        assume "\<exists>pre node_id rest nl0 st0 node e st2.
           cur1 = pre @ node_id # rest
           \<and> process_layer L g pre [] st3 = (Continue nl0, st0)
           \<and> map_of (nodes g) node_id = Some node
           \<and> execute_node L node
                 (log_append (''Executing Node: '' @ ntype node @ '' ('' @ node_id @ '')'') st0)
               = (Inl e, st2)
           \<and> stf = log_append (''Error executing node '' @ node_id @ '': '' @ exn_msg L e) st2
           \<and> r = error_result (exn_msg L e) stf"
        then obtain pre node_id rest nl0 st0 node e st2 where
          h: "cur1 = pre @ node_id # rest"
             "process_layer L g pre [] st3 = (Continue nl0, st0)"
             "map_of (nodes g) node_id = Some node"
             "execute_node L node
                 (log_append (''Executing Node: '' @ ntype node @ '' ('' @ node_id @ '')'') st0)
               = (Inl e, st2)"
             "r = error_result (exn_msg L e)
                    (log_append (''Error executing node '' @ node_id @ '': '' @ exn_msg L e) st2)"
          by blast
        have "r_status r = Some ''error''" using h(5) by (simp add: result_status)
        then show ?thesis using h w 2(1) by blast
      qed
    qed
  qed
  have 4: "handle_request L wd input_data =
             (Inr (error_result (exn_msg L e)
                     (log_append (''Error executing node '' @ node_id @ '': '' @ exn_msg L e) st2)),
              log_append (''Error executing node '' @ node_id @ '': '' @ exn_msg L e) st2)"
    if "j < 1000" "wave_at L g j [nid start] s0 = Some (pre @ node_id # rest, st)"
      "process_layer L g pre [] st = (Continue nl, st0)"
      "map_of (nodes g) node_id = Some node"
      "execute_node L node
         (log_append (''Executing Node: '' @ ntype node @ '' ('' @ node_id @ '')'') st0)
       = (Inl e, st2)"
    for j pre node_id rest st nl st0 node e st2
  proof -
    have "run_waves L g [nid start] 0 s0 = run_waves L g (pre @ node_id # rest) j st"
      using run_waves_follow [OF that(2), of 0] that(1) by simp
    then show ?thesis
      using run_waves_node_raises [OF that(1) that(3) that(4) that(5), of rest] rc
      by (simp add: handle_request_def WorkflowExecutor_def run_def g_def)
  qed
  have 5: "handle_request L wd input_data = (Inl KeyError, st0)"
    if "j < 1000" "wave_at L g j [nid start] s0 = Some (pre @ node_id # rest, st)"
      "process_layer L g pre [] st = (Continue nl, st0)"
      "map_of (nodes g) node_id = None"
    for j pre node_id rest st nl st0
  proof -
    have "run_waves L g [nid start] 0 s0 = run_waves L g (pre @ node_id # rest) j st"
      using run_waves_follow [OF that(2), of 0] that(1) by simp
    then show ?thesis
      using run_waves_missing_node [OF that(1) that(3) that(4), of rest] rc
      by (simp add: handle_request_def WorkflowExecutor_def run_def g_def)
  qed
  have 6: "\<exists>r. x = Inr r"
    if te: "targets_exist wd" and sl: "\<forall>xs. set (set_list L xs) \<subseteq> set xs"
  proof -
    have "start \<in> set (filter (\<lambda>n. ntype n = ''api'') (wf_nodes wd))"
      unfolding a by simp
    then have "start \<in> set (wf_nodes wd)" by simp
    then have "set [nid start] \<subseteq> nid ` set (wf_nodes wd)" by simp
    then have "\<exists>r. fst (run_waves L g [nid start] 0 s0) = Inr r"
      using run_waves_returns [of g "nid ` set (wf_nodes wd)" L "[nid start]" 0 s0]
        route_targets [OF te] ks sl unfolding g_def by blast
    then show ?thesis using rw by simp
  qed
  have fx: "fst (handle_request L wd input_data) = x" using hr by simp
  show ?thesis
    unfolding fx
    apply (intro conjI allI impI)
    subgoal by (rule 1)
    subgoal for e using 2 [of e] by blast
    subgoal for e using 2 [of e] by blast
    subgoal for r using 3 [of r] by blast
    subgoal using 4 by blast
    subgoal using 5 by blast
    subgoal using 6 by blast
    done
qed


theorem run_outcome_witness:
  "snd (snd (run_counted lib (init_graph embedded_workflow) [] init_state)) \<le> 1000
   \<and> (case fst (handle_request lib embedded_workflow []) of
         Inl e \<Rightarrow> False
       | Inr r \<Rightarrow> r_status r = Some ''success'')
   \<and> handle_request lib raising_workflow [] =
       (Inr (error_result ''AttributeError''
               \<lparr>ctx = [(PStr ''request'', PDict [])],
                execution_log = [''Started execution at entry'', ''Executing Node: api (a)'',
                                 ''Executing Node: logic (l)'',
                                 ''Error executing node l: AttributeError'']\<rparr>),
        \<lparr>ctx = [(PStr ''request'', PDict [])],
         execution_log = [''Started execution at entry'', ''Executing Node: api (a)'',
                          ''Executing Node: logic (l)'',
                          ''Error executing node l: AttributeError'']\<rparr>)
   \<and> handle_request lib dangling_workflow [] =
       (Inl KeyError,
        \<lparr>ctx = [(PStr ''request'', PDict [])],
         execution_log = [''Started execution at entry'', ''Executing Node: api (a)'']\<rparr>)"
proof -
  let ?api = "\<lparr>nid = ''api-1768636097809'', ntype = ''api'',
               ndata = Some [(''label'', PStr ''New api'')]\<rparr> :: rat node"
  let ?a = "\<lparr>nid = ''a'', ntype = ''api'', ndata = Some [(''label'', PStr ''entry'')]\<rparr> :: rat node"
  let ?l = "\<lparr>nid = ''l'', ntype = ''logic'', ndata = Some [(''condition'', PInt 5)]\<rparr> :: rat node"
  let ?w1 = "\<lparr>ctx = [(PStr ''request'', PDict [])],
              execution_log = [''Started execution at entry'', ''Executing Node: api (a)'']\<rparr>
             :: rat estate"
  let ?w2 = "\<lparr>ctx = [(PStr ''request'', PDict [])],
              execution_log = [''Started execution at entry'', ''Executing Node: api (a)'',
                               ''Executing Node: logic (l)'']\<rparr> :: rat estate"
  have e1: "distinct (map nid (wf_nodes (embedded_workflow :: rat workflow)))"
    by (simp add: embedded_workflow_def)
  have e2: "filter (\<lambda>n. ntype n = ''api'') (wf_nodes embedded_workflow) = [?api]"
    by (simp add: embedded_workflow_def)
  have e3: "ndata ?api = Some [(''label'', PStr ''New api'')]" by simp
  have e4: "init_variables lib (nodes (init_graph embedded_workflow)) init_state
              = (None, init_state)"
    by code_simp
  have e5: "targets_exist (embedded_workflow :: rat workflow)"
    by (simp add: targets_exist_def embedded_workflow_def)
  have sl: "\<forall>xs. set (set_list lib xs) \<subseteq> set xs" by (simp add: lib_def)
  have es: "fst (handle_request lib embedded_workflow []) = Inr r \<Longrightarrow> r_status r = Some ''success''"
    for r
    by (auto simp: handle_request_def WorkflowExecutor_def run_def embedded_run result_status)
  note E = run_outcome [OF e1 e2 e3 e4, of "[]"]
  from E e5 sl obtain r where
    c: "snd (snd (run_counted lib (init_graph embedded_workflow) [] init_state)) \<le> 1000"
    and r: "fst (handle_request lib embedded_workflow []) = Inr r"
    by blast
  have r1: "distinct (map nid (wf_nodes (raising_workflow :: rat workflow)))"
    by (simp add: raising_workflow_def)
  have r2: "filter (\<lambda>n. ntype n = ''api'') (wf_nodes raising_workflow) = [?a]"
    by (simp add: raising_workflow_def)
  have r3: "ndata ?a = Some [(''label'', PStr ''entry'')]" by simp
  have r4: "init_variables lib (nodes (init_graph raising_workflow)) init_state
              = (None, init_state)"
    by code_simp
  have r5: "wave_at lib (init_graph raising_workflow) 1 [nid ?a]
              (seeded_state lib [(''label'', PStr ''entry'')] [] init_state)
            = Some ([] @ ''l'' # [], ?w1)"
    by code_simp
  have r6: "process_layer lib (init_graph raising_workflow) [] [] ?w1 = (Continue [], ?w1)"
    by simp
  have r7: "map_of (nodes (init_graph raising_workflow)) ''l'' = Some ?l"
    by (simp add: init_graph_def raising_workflow_def)
  have r8: "execute_node lib ?l
              (log_append (''Executing Node: '' @ ntype ?l @ '' ('' @ ''l'' @ '')'') ?w1)
            = (Inl AttributeError, ?w2)"
    by code_simp
  have rm: "exn_msg lib AttributeError = ''AttributeError''"
    by (simp add: lib_def lib_exn_msg_def)
  have r9: "(1::nat) < 1000" by simp
  note R4 = run_outcome [OF r1 r2 r3 r4, of "[]", THEN conjunct2, THEN conjunct2,
                         THEN conjunct2, THEN conjunct1, rule_format,
                         of 1 "[]" "''l''" "[]" ?w1 "[]" ?w1 ?l AttributeError ?w2]
  have R: "handle_request lib raising_workflow [] =
             (Inr (error_result (exn_msg lib AttributeError)
                     (log_append (''Error executing node '' @ ''l'' @ '': ''
                                  @ exn_msg lib AttributeError) ?w2)),
              log_append (''Error executing node '' @ ''l'' @ '': ''
                          @ exn_msg lib AttributeError) ?w2)"
    by (rule R4) (intro conjI r9 r5 r6 r7 r8)
  have d1: "distinct (map nid (wf_nodes (dangling_workflow :: rat workflow)))"
    by (simp add: dangling_workflow_def)
  have d2: "filter (\<lambda>n. ntype n = ''api'') (wf_nodes dangling_workflow) = [?a]"
    by (simp add: dangling_workflow_def)
  have d4: "init_variables lib (nodes (init_graph dangling_workflow)) init_state
              = (None, init_state)"
    by code_simp
  have d5: "wave_at lib (init_graph dangling_workflow) 1 [nid ?a]
              (seeded_state lib [(''label'', PStr ''entry'')] [] init_state)
            = Some ([] @ ''ghost'' # [], ?w1)"
    by code_simp
  have d6: "process_layer lib (init_graph dangling_workflow) [] [] ?w1 = (Continue [], ?w1)"
    by simp
  have d7: "map_of (nodes (init_graph dangling_workflow)) ''ghost'' = None"
    by (simp add: init_graph_def dangling_workflow_def)
  note D5 = run_outcome [OF d1 d2 r3 d4, of "[]", THEN conjunct2, THEN conjunct2,
                         THEN conjunct2, THEN conjunct2, THEN conjunct1, rule_format,
                         of 1 "[]" "''ghost''" "[]" ?w1 "[]" ?w1]
  have D: "handle_request lib dangling_workflow [] = (Inl KeyError, ?w1)"
    by (rule D5) (intro conjI r9 d5 d6 d7)
  show ?thesis using c r es [OF r] R D by (simp add: rm log_append_def)
qed

text \<open>
  Two workflows with exactly one api node that do not end in a success result: an edge
  to an id that names no node makes \<open>run\<close> raise \<open>KeyError\<close> in the second wave, and
  a logic node whose condition is the number 5 raises, which \<open>run\<close> turns into an
  error result.
\<close>

theorem run_not_always_success_counterexample:
  "length (filter (\<lambda>n. ntype n = ''api'') (wf_nodes (dangling_workflow :: rat workflow))) = 1
   \<and> handle_request lib dangling_workflow [] =
       (Inl KeyError,
        \<lparr>ctx = [(PStr ''request'', PDict [])],
         execution_log = [''Started execution at entry'', ''Executing Node: api (a)'']\<rparr>)
   \<and> length (filter (\<lambda>n. ntype n = ''api'') (wf_nodes (raising_workflow :: rat workflow))) = 1
   \<and> (case fst (handle_request lib raising_workflow []) of
         Inl e \<Rightarrow> False
       | Inr r \<Rightarrow> r_status r = Some ''error'' \<and> r_error r = Some ''AttributeError'')"
  by code_simp

subsection \<open>The results of a run\<close>

lemma init_variables_fold:
  "fst (init_variables L ns st) = None \<Longrightarrow>
   snd (init_variables L ns st) =
     fold (\<lambda>(node_id, node) s. snd (execute_node L node s))
       (filter (\<lambda>(node_id, node). ntype node = ''variable'') ns) st"
proof (induction ns arbitrary: st)
  case Nil
  then show ?case by simp
next
  case (Cons a ns)
  obtain node_id node where a: "a = (node_id, node)" by (cases a)
  show ?case
  proof (cases "ntype node = ''variable''")
    case False
    then show ?thesis using Cons a by simp
  next
    case True
    obtain x st1 where ex: "execute_node L node st = (x, st1)"
      by (cases "execute_node L node st")
    show ?thesis
    proof (cases x)
      case (Inl e)
      then show ?thesis using Cons.prems a True ex by simp
    next
      case (Inr res)
      then show ?thesis using Cons a True ex by simp
    qed
  qed
qed

lemma find_start_none:
  "\<forall>node \<in> snd ` set (nodes g). ntype node \<noteq> ''api'' \<Longrightarrow> find_start g = None"
  by (auto simp: find_start_def find_None_iff)

text \<open>
  C9. When the graph has no api node, \<open>run\<close> first executes the variable nodes, in
  the order of the node index: an exception of one of them leaves \<open>run\<close>, and
  otherwise \<open>run\<close> returns the structural failure \<open>{"error": "No API Entry Point
  found"}\<close>, which has no status and no logs, in the state that executing every
  variable node has produced (their Context entries and log lines).
\<close>

theorem no_entry_point_after_variables:
  assumes "\<forall>node \<in> snd ` set (nodes g). ntype node \<noteq> ''api''"
  shows "run L g input_data st =
           (case init_variables L (nodes g) st of
              (Some e, st1) \<Rightarrow> (Inl e, st1)
            | (None, st1) \<Rightarrow> (Inr no_entry_result, st1))
       \<and> (fst (init_variables L (nodes g) st) = None \<longrightarrow>
            run L g input_data st =
              (Inr \<lparr>r_status = None, r_response = None, r_message = None,
                    r_error = Some ''No API Entry Point found'', r_logs = None,
                    r_context = None\<rparr>,
               fold (\<lambda>(node_id, node) s. snd (execute_node L node s))
                 (filter (\<lambda>(node_id, node). ntype node = ''variable'') (nodes g)) st))"
proof -
  have fs: "find_start g = None" using assms by (rule find_start_none)
  obtain x st1 where iv: "init_variables L (nodes g) st = (x, st1)"
    by (cases "init_variables L (nodes g) st")
  have 1: "run L g input_data st =
           (case init_variables L (nodes g) st of
              (Some e, st1) \<Rightarrow> (Inl e, st1)
            | (None, st1) \<Rightarrow> (Inr no_entry_result, st1))"
    by (cases x) (simp_all add: run_def run_counted_def iv fs)
  have 2: "run L g input_data st =
              (Inr no_entry_result,
               fold (\<lambda>(node_id, node) s. snd (execute_node L node s))
                 (filter (\<lambda>(node_id, node). ntype node = ''variable'') (nodes g)) st)"
    if "fst (init_variables L (nodes g) st) = None"
    using init_variables_fold [OF that] that iv unfolding 1 by simp
  show ?thesis using 1 2 by (simp add: no_entry_result_def)
qed

theorem no_entry_point_after_variables_witness:
  "run lib (init_graph no_api_workflow) [] init_state =
     (Inr no_entry_result,
      \<lparr>ctx = [(PStr ''greeting'', PStr ''hello'')],
       execution_log = [''Set Variable '' @ [CHR 0x27] @ ''greeting'' @ [CHR 0x27]
                        @ '' = hello...'']\<rparr>)
   \<and> fst (init_variables lib (nodes (init_graph no_api_workflow)) init_state) = None"
proof -
  have h: "\<forall>node \<in> snd ` set (nodes (init_graph (no_api_workflow :: rat workflow))).
             ntype node \<noteq> ''api''"
    by (simp add: init_graph_def no_api_workflow_def)
  have i: "fst (init_variables lib (nodes (init_graph no_api_workflow)) init_state) = None"
    by code_simp
  have f: "fold (\<lambda>(node_id, node) s. snd (execute_node lib node s))
             (filter (\<lambda>(node_id, node). ntype node = ''variable'')
                (nodes (init_graph no_api_workflow))) init_state =
           \<lparr>ctx = [(PStr ''greeting'', PStr ''hello'')],
            execution_log = [''Set Variable '' @ [CHR 0x27] @ ''greeting'' @ [CHR 0x27]
                             @ '' = hello...'']\<rparr>"
    by code_simp
  from no_entry_point_after_variables [OF h, of lib "[]" init_state] i
  have "run lib (init_graph no_api_workflow) [] init_state =
          (Inr \<lparr>r_status = None, r_response = None, r_message = None,
                r_error = Some ''No API Entry Point found'', r_logs = None,
                r_context = None\<rparr>,
           fold (\<lambda>(node_id, node) s. snd (execute_node lib node s))
             (filter (\<lambda>(node_id, node). ntype node = ''variable'')
                (nodes (init_graph no_api_workflow))) init_state)"
    by blast
  then show ?thesis unfolding f using i by (simp add: no_entry_result_def)
qed


lemma process_layer_response:
  assumes "map_of (nodes g) node_id = Some node"
    and "execute_node L node
           (log_append (''Executing Node: '' @ ntype node @ '' ('' @ node_id @ '')'') st)
         = (Inr (Some (Response payload)), st1)"
  shows "process_layer L g (node_id # rest) nl st = (Returned (response_result payload st1), st1)"
  using assms by simp

lemma run_success_has_context:
  assumes "fst (run L g input_data st) = Inr r" and "r_status r = Some ''success''"
  shows "r_context r \<noteq> None \<and> r_logs r \<noteq> None"
proof -
  obtain x st1 where iv: "init_variables L (nodes g) st = (x, st1)"
    by (cases "init_variables L (nodes g) st")
  show ?thesis
  proof (cases x)
    case (Some e)
    then show ?thesis using assms(1) iv by (simp add: run_def run_counted_def)
  next
    case None
    show ?thesis
    proof (cases "find_start g")
      case None2: None
      then show ?thesis using assms iv None
        by (auto simp: run_def run_counted_def no_entry_result_def)
    next
      case (Some start)
      show ?thesis
      proof (cases "ndata start")
        case None3: None
        then show ?thesis using assms(1) iv None Some by (simp add: run_def run_counted_def)
      next
        case Some2: (Some dd)
        define st3 where
          "st3 = (log_append (''Started execution at ''
                              @ py_str L (dget dd ''label'' (PStr ''API Entry''))) st1)
                 \<lparr>ctx := seed_context L input_data
                    (ctx (log_append (''Started execution at ''
                                      @ py_str L (dget dd ''label'' (PStr ''API Entry''))) st1))\<rparr>"
        have rc: "run_counted L g input_data st = run_waves L g [nid start] 0 st3"
          unfolding st3_def by (simp add: run_counted_def iv None Some Some2 Let_def)
        obtain y stf k where rw: "run_waves L g [nid start] 0 st3 = (y, stf, k)"
          by (cases "run_waves L g [nid start] 0 st3")
        then have "y = Inr r" using assms(1) rc by (simp add: run_def)
        then show ?thesis
          using run_waves_result [of L g "[nid start]" 0 st3 r stf k] rw assms(2)
          by (auto simp: response_result_def error_result_def completed_result_def)
      qed
    qed
  qed
qed


text \<open>
  C2 (amended). When the execution of a node of the current wave yields a response
  outcome (the nodes before it in the wave having run through), \<open>run\<close> returns at once
  a success result with that payload, the log and the Context of that moment. The
  context field is present in every success result of \<open>run\<close>: in the result of a
  response termination as in that of a fall-through or wave-limit termination.
\<close>

theorem response_ends_run:
  assumes "n < 1000"
    and "process_layer L g pre [] st = (Continue nl, st0)"
    and "map_of (nodes g) node_id = Some node"
    and "execute_node L node
           (log_append (''Executing Node: '' @ ntype node @ '' ('' @ node_id @ '')'') st0)
         = (Inr (Some (Response payload)), st1)"
  shows "run_waves L g (pre @ node_id # rest) n st =
           (Inr \<lparr>r_status = Some ''success'', r_response = Some payload, r_message = None,
                 r_error = None, r_logs = Some (execution_log st1),
                 r_context = Some (ctx st1)\<rparr>, st1, n + 1)
       \<and> (\<forall>r. fst (run L g input_data st2) = Inr r \<and> r_status r = Some ''success''
              \<longrightarrow> r_context r \<noteq> None \<and> r_logs r \<noteq> None)"
proof -
  have "process_layer L g (pre @ node_id # rest) [] st =
          (Returned (response_result payload st1), st1)"
    using process_layer_response [OF assms(3) assms(4), of rest nl] assms(2)
    by (simp add: process_layer_append)
  then have "run_waves L g (pre @ node_id # rest) n st =
               (Inr (response_result payload st1), st1, n + 1)"
    using assms(1) by (simp add: run_waves_step)
  then show ?thesis using run_success_has_context [of L g input_data st2]
    by (simp add: response_result_def)
qed

lemma respond_run:
  "run lib (init_graph respond_workflow) [] init_state =
     (Inr \<lparr>r_status = Some ''success'', r_response = Some (PDict []), r_message = None,
           r_error = None,
           r_logs = Some [''Started execution at entry'', ''Executing Node: api (a)'',
                          ''Executing Node: response (r)''],
           r_context = Some [(PStr ''request'', PDict [])]\<rparr>,
      \<lparr>ctx = [(PStr ''request'', PDict [])],
       execution_log = [''Started execution at entry'', ''Executing Node: api (a)'',
                        ''Executing Node: response (r)'']\<rparr>)"
  by code_simp

theorem response_ends_run_witness:
  "run_waves lib (init_graph respond_workflow) [''r''] 1
      \<lparr>ctx = [(PStr ''request'', PDict [])], execution_log = []\<rparr> =
     (Inr \<lparr>r_status = Some ''success'', r_response = Some (PDict []), r_message = None,
           r_error = None, r_logs = Some [''Executing Node: response (r)''],
           r_context = Some [(PStr ''request'', PDict [])]\<rparr>,
      \<lparr>ctx = [(PStr ''request'', PDict [])],
       execution_log = [''Executing Node: response (r)'']\<rparr>, 2)
   \<and> r_context (projr (fst (run lib (init_graph respond_workflow) [] init_state))) \<noteq> None"
proof -
  let ?node = "\<lparr>nid = ''r'', ntype = ''response'',
                ndata = Some [(''responseType'', PStr ''variable''),
                              (''body'', PStr ''request'')]\<rparr> :: rat node"
  let ?st = "\<lparr>ctx = [(PStr ''request'', PDict [])], execution_log = []\<rparr> :: rat estate"
  let ?st1 = "\<lparr>ctx = [(PStr ''request'', PDict [])],
               execution_log = [''Executing Node: response (r)'']\<rparr> :: rat estate"
  have h1: "(1::nat) < 1000" by simp
  have h2: "process_layer lib (init_graph respond_workflow) [] [] ?st = (Continue [], ?st)"
    by simp
  have h3: "map_of (nodes (init_graph respond_workflow)) ''r'' = Some ?node"
    by (simp add: init_graph_def respond_workflow_def)
  have h4: "execute_node lib ?node
              (log_append (''Executing Node: '' @ ntype ?node @ '' ('' @ ''r'' @ '')'') ?st)
            = (Inr (Some (Response (PDict []))), ?st1)"
    by code_simp
  show ?thesis
    using response_ends_run [OF h1 h2 h3 h4, of "[]" "[]" init_state]
    by (simp add: respond_run)
qed

text \<open>
  An api node followed by a response node: the result of the response termination holds
  the context field.
\<close>

theorem response_result_has_context_counterexample:
  "fst (handle_request lib respond_workflow []) =
     Inr \<lparr>r_status = Some ''success'', r_response = Some (PDict []), r_message = None,
          r_error = None,
          r_logs = Some [''Started execution at entry'', ''Executing Node: api (a)'',
                         ''Executing Node: response (r)''],
          r_context = Some [(PStr ''request'', PDict [])]\<rparr>"
  by code_simp

subsection \<open>State across requests\<close>

text \<open>
  C3. The claim is that two runs of the same graph with the same input share no state and
  give identical results. The code does not keep to it for a workflow whose variable
  node stores an object under \<open>_loop_states\<close>: line 200 puts the object of the
  workflow definition itself into the Context, and the loop node updates that object in
  place (lines 405-406), so the definition that the next request reads holds what the
  first request left under \<open>_loop_states\<close>. The first request answers 1 and leaves the
  loop index 1 there; the second request, on the definition holding that value, starts
  with the index 1 in its Context and answers 2.
\<close>

theorem definition_object_carries_loop_state:
  "map_sum id r_response (fst (handle_request lib (leak_workflow []) [])) = Inr (Some (PInt 1))
   \<and> map_of (ctx (snd (handle_request lib (leak_workflow []) []))) (PStr ''_loop_states'')
       = Some (PDict [(''l'', PDict [(''index'', PInt 1)])])
   \<and> (case map_of (ctx (snd (handle_request lib (leak_workflow []) []))) (PStr ''_loop_states'') of
         Some (PDict held) \<Rightarrow>
           loop_index
             (ctx (snd (init_variables lib (nodes (init_graph (leak_workflow held))) init_state)))
             ''l'' = Some (PInt 1)
           \<and> map_sum id r_response (fst (handle_request lib (leak_workflow held) []))
               = Inr (Some (PInt 2))
       | _ \<Rightarrow> False)"
  by code_simp

end
